theory Spec2Isabelle
  imports Complex_Main
begin

section \<open>Render3D: a software triangle pipeline\<close>

text \<open>
  A shallow embedding of \<^verbatim>\<open>render3d.ts\<close> (the class-based renderer) and of the
  array-based renderer of the same repository.

  Numbers. A TypeScript \<^verbatim>\<open>number\<close> is modelled as a \<^typ>\<open>real\<close>: the embedding has no
  rounding, no NaN and no infinite value. The one infinite value the code stores itself,
  the \<^verbatim>\<open>Infinity\<close> of a cleared depth cell, is a constructor of the type of depth cells.
  HOL's division is total (\<open>a / 0 = 0\<close>); every theorem below that reaches a division
  shows or assumes that the divisor is not zero.
\<close>

subsection \<open>Math\<close>

text \<open>\<^verbatim>\<open>class Vec3 { x, y, z }\<close> and \<^verbatim>\<open>class Vec4 { x, y, z, w }\<close>.\<close>

datatype vec3 = Vec3 (vec3_x: real) (vec3_y: real) (vec3_z: real)

datatype vec4 = Vec4 (vec4_x: real) (vec4_y: real) (vec4_z: real) (vec4_w: real)

text \<open>
  \<^verbatim>\<open>class Mat4 { m: number[] }\<close>: sixteen numbers, entry (i, j) at index \<open>i * 4 + j\<close>.
  Every matrix the class builds has sixteen entries; the theorems about matrices assume it.
\<close>

record mat4 =
  m :: "real list"

definition Mat4_new :: mat4 where
  "Mat4_new = \<lparr>m = [1, 0, 0, 0,
                    0, 1, 0, 0,
                    0, 0, 1, 0,
                    0, 0, 0, 1]\<rparr>"

definition Mat4_identity :: mat4 where
  "Mat4_identity = Mat4_new"

text \<open>
  \<^verbatim>\<open>Mat4.multiply\<close>: three nested loops over 0..3; the innermost accumulates
  \<^verbatim>\<open>sum += a.m[i*4+k] * b.m[k*4+j]\<close> from 0, the middle one stores the sum at
  \<^verbatim>\<open>result.m[i*4+j]\<close> of a fresh matrix.
\<close>

definition multiply_sum :: "mat4 \<Rightarrow> mat4 \<Rightarrow> nat \<Rightarrow> nat \<Rightarrow> real" where
  "multiply_sum a b i j =
     foldl (\<lambda>sum k. sum + m a ! (i * 4 + k) * m b ! (k * 4 + j)) 0 [0..<4]"

definition multiply_row :: "mat4 \<Rightarrow> mat4 \<Rightarrow> mat4 \<Rightarrow> nat \<Rightarrow> mat4" where
  "multiply_row a b result i =
     foldl (\<lambda>res j. res\<lparr>m := (m res)[i * 4 + j := multiply_sum a b i j]\<rparr>) result [0..<4]"

definition Mat4_multiply :: "mat4 \<Rightarrow> mat4 \<Rightarrow> mat4" where
  "Mat4_multiply a b = foldl (multiply_row a b) Mat4_new [0..<4]"


text \<open>\<^verbatim>\<open>Mat4.perspective\<close>: six entries of a fresh identity matrix are overwritten.\<close>

definition Mat4_perspective :: "real \<Rightarrow> real \<Rightarrow> real \<Rightarrow> real \<Rightarrow> mat4" where
  "Mat4_perspective fov aspect near far =
     (let f = 1 / tan (fov / 2);
          nf = 1 / (near - far)
      in \<lparr>m = (m Mat4_new)
            [0 := f / aspect,
             5 := f,
             10 := (far + near) * nf,
             11 := 2 * far * near * nf,
             14 := - 1,
             15 := 0]\<rparr>)"


subsection \<open>Perspective divide, viewport transform, intensity\<close>

text \<open>\<^verbatim>\<open>Renderer.perspectiveDivide\<close> of the class-based renderer.\<close>

definition perspectiveDivide :: "vec4 \<Rightarrow> vec3" where
  "perspectiveDivide v =
     (if \<bar>vec4_w v\<bar> < 1 / 10000 then Vec3 (vec4_x v) (vec4_y v) (vec4_z v)
      else Vec3 (vec4_x v / vec4_w v) (vec4_y v / vec4_w v) (vec4_z v / vec4_w v))"

text \<open>
  The object \<^verbatim>\<open>{ x, y, z }\<close> that \<^verbatim>\<open>toScreen\<close> returns and the rasterizer reads. Its
  fields are numbers: \<^verbatim>\<open>Math.floor\<close> makes x and y whole, the type does not.
\<close>

datatype screen_point = ScreenPoint (px: real) (py: real) (pz: real)

text \<open>
  \<^verbatim>\<open>Renderer.toScreen\<close> reads \<^verbatim>\<open>this.width\<close> and \<^verbatim>\<open>this.height\<close>, here the two
  leading arguments (pixel counts, integers).
\<close>

definition toScreen :: "int \<Rightarrow> int \<Rightarrow> vec3 \<Rightarrow> screen_point" where
  "toScreen wd ht ndc =
     ScreenPoint (of_int \<lfloor>(vec3_x ndc + 1) * (1 / 2) * of_int wd\<rfloor>)
                 (of_int \<lfloor>(1 - vec3_y ndc) * (1 / 2) * of_int ht\<rfloor>)
                 (vec3_z ndc)"

text \<open>
  The value handed to \<^verbatim>\<open>setPixel\<close>:
  \<^verbatim>\<open>Math.max(0, Math.min(15, Math.floor(color)))\<close>.
\<close>

definition intensity :: "real \<Rightarrow> int" where
  "intensity color = max 0 (min 15 \<lfloor>color\<rfloor>)"

text \<open>
  The specification's order of the same step (clamp to the interval from 0 to 15, then
  truncate towards zero), written from its words for comparison with \<^const>\<open>intensity\<close>.
\<close>

definition truncate_real :: "real \<Rightarrow> int" where
  "truncate_real a = (if 0 \<le> a then \<lfloor>a\<rfloor> else \<lceil>a\<rceil>)"

definition spec_clamp_truncate :: "real \<Rightarrow> int" where
  "spec_clamp_truncate color = truncate_real (max 0 (min 15 color))"

subsection \<open>Barycentric weights\<close>

text \<open>The object \<^verbatim>\<open>{ u, v, w }\<close> that \<^verbatim>\<open>barycentric\<close> returns.\<close>

datatype weights = Weights (bary_u: real) (bary_v: real) (bary_w: real)

text \<open>The signed double area \<^verbatim>\<open>denom\<close> of \<^verbatim>\<open>Renderer.barycentric\<close>.\<close>

definition denom :: "screen_point \<Rightarrow> screen_point \<Rightarrow> screen_point \<Rightarrow> real" where
  "denom p0 p1 p2 =
     (let v0x = px p1 - px p0; v0y = py p1 - py p0;
          v1x = px p2 - px p0; v1y = py p2 - py p0
      in v0x * v1y - v1x * v0y)"

definition barycentric ::
  "real \<Rightarrow> real \<Rightarrow> screen_point \<Rightarrow> screen_point \<Rightarrow> screen_point \<Rightarrow> weights" where
  "barycentric x y p0 p1 p2 =
     (let v0x = px p1 - px p0; v0y = py p1 - py p0;
          v1x = px p2 - px p0; v1y = py p2 - py p0;
          v2x = x - px p0; v2y = y - py p0;
          dn = v0x * v1y - v1x * v0y
      in if \<bar>dn\<bar> < 1 / 1000 then Weights (- 1) (- 1) (- 1)
         else (let v = (v2x * v1y - v1x * v2y) / dn;
                   w = (v0x * v2y - v2x * v0y) / dn;
                   u = 1 - v - w
               in Weights u v w))"

text \<open>
  The closed triangle, independently of the weights: the point lies on the same side of
  (or on) each of the three edges, taken in the order p0 p1 p2.
\<close>

definition edge_side :: "screen_point \<Rightarrow> screen_point \<Rightarrow> real \<Rightarrow> real \<Rightarrow> real" where
  "edge_side a b x y = (px b - px a) * (y - py a) - (py b - py a) * (x - px a)"

definition inside_triangle ::
  "real \<Rightarrow> real \<Rightarrow> screen_point \<Rightarrow> screen_point \<Rightarrow> screen_point \<Rightarrow> bool" where
  "inside_triangle x y p0 p1 p2 =
     ((0 \<le> edge_side p0 p1 x y \<and> 0 \<le> edge_side p1 p2 x y \<and> 0 \<le> edge_side p2 p0 x y) \<or>
      (edge_side p0 p1 x y \<le> 0 \<and> edge_side p1 p2 x y \<le> 0 \<and> edge_side p2 p0 x y \<le> 0))"


subsection \<open>Shader contract and geometry\<close>

text \<open>
  A varying is a number, a \<^verbatim>\<open>Vec3\<close>, or a value that is neither; \<^verbatim>\<open>interpolateVarying\<close>
  tells them apart with \<^verbatim>\<open>typeof\<close> and \<^verbatim>\<open>instanceof\<close>. \<open>Other\<close> also stands for what
  the arithmetic of the code yields on operands that are not numbers (NaN, outside the
  reals).
\<close>

datatype varying_value = Scalar real | Vector vec3 | Other

text \<open>
  \<^verbatim>\<open>interface VertexOutput { position: Vec4; [key: string]: any }\<close>: the clip position and
  the other keys in the order the shader set them.
\<close>

record vertex_output =
  position :: vec4
  varyings :: "(string \<times> varying_value) list"

text \<open>
  \<^verbatim>\<open>interface VertexAttributes { position: Vec3; [key: string]: any }\<close>. The renderer
  never looks into an attribute record or into the uniforms: it hands them to the shaders.
  Its functions are therefore polymorphic in both (\<open>'a\<close> for the attributes of a vertex,
  \<open>'u\<close> for the uniforms).
\<close>

record vertex_attributes =
  attr_position :: vec3
  attr_extra :: "(string \<times> varying_value) list"


text \<open>\<^verbatim>\<open>class Geometry { vertices: VertexAttributes[]; indices: number[] }\<close>.\<close>

record 'a geometry =
  vertices :: "'a list"
  indices :: "int list"

text \<open>
  What stops a draw call. \<open>TypeError\<close>: a property of \<^verbatim>\<open>undefined\<close> is read (by a shader
  handed \<^verbatim>\<open>undefined\<close>, by \<^verbatim>\<open>interpolateVarying\<close>, or by the array-based renderer at
  \<^verbatim>\<open>geo.v[i].p\<close>). \<open>Thrown\<close>: any other exception of a shader. \<open>NotANumber\<close>: the
  array-based renderer reads past the end of a shader's output array; the arithmetic on
  \<^verbatim>\<open>undefined\<close> leaves the reals, so the draw call is outside this embedding. A stopped draw
  call has no result state.
\<close>

datatype fault = TypeError | Thrown | NotANumber

text \<open>
  The shaders. \<^verbatim>\<open>render\<close> hands the vertex shader whatever \<^verbatim>\<open>geometry.vertices[i]\<close> is:
  an attribute record, or \<^verbatim>\<open>undefined\<close> (\<open>None\<close>) when the index is outside the vertex
  buffer or is itself missing. The shader returns an output or throws. The fragment shader
  is only ever handed an interpolated output and returns a number.
\<close>

type_synonym ('a, 'u) vertex_shader = "'a option \<Rightarrow> 'u \<Rightarrow> fault + vertex_output"

type_synonym 'u fragment_shader = "vertex_output \<Rightarrow> 'u \<Rightarrow> real"

text \<open>
  \<^verbatim>\<open>geometry.vertices[i]\<close> for a number \<open>i\<close>, and for an \<open>i\<close> that may itself be
  \<^verbatim>\<open>undefined\<close>. The loop of \<^verbatim>\<open>render\<close> reads the index list three at a time; one or
  two indices left over are completed with \<^verbatim>\<open>undefined\<close>, read past the end of the list.
\<close>

definition vertex_at :: "'a list \<Rightarrow> int \<Rightarrow> 'a option" where
  "vertex_at vs i = (if 0 \<le> i \<and> i < int (length vs) then Some (vs ! nat i) else None)"

definition vertex_of :: "'a list \<Rightarrow> int option \<Rightarrow> 'a option" where
  "vertex_of vs i = (case i of None \<Rightarrow> None | Some k \<Rightarrow> vertex_at vs k)"

fun index_triples :: "int list \<Rightarrow> (int option \<times> int option \<times> int option) list" where
  "index_triples [] = []"
| "index_triples [i0] = [(Some i0, None, None)]"
| "index_triples [i0, i1] = [(Some i0, Some i1, None)]"
| "index_triples (i0 # i1 # i2 # rest) = (Some i0, Some i1, Some i2) # index_triples rest"

subsection \<open>Framebuffer and depth buffer\<close>

text \<open>
  Modelled from the spec: the host's \<^verbatim>\<open>Image\<close> (\<^verbatim>\<open>image.create\<close>, \<^verbatim>\<open>fill\<close>,
  \<^verbatim>\<open>setPixel\<close>) is not part of the repository. The framebuffer is a width by height grid of
  integers, stored row by row; a freshly created image is all 0, \<^verbatim>\<open>fill\<close> sets every cell,
  \<^verbatim>\<open>setPixel\<close> sets the cell of one pixel and ignores a pixel outside the grid.
\<close>

record image =
  img_width :: int
  img_height :: int
  pixels :: "int list"

definition image_create :: "int \<Rightarrow> int \<Rightarrow> image" where
  "image_create wd ht = \<lparr>img_width = wd, img_height = ht, pixels = replicate (nat (wd * ht)) 0\<rparr>"

definition image_fill :: "image \<Rightarrow> int \<Rightarrow> image" where
  "image_fill img c = img\<lparr>pixels := replicate (length (pixels img)) c\<rparr>"

definition image_setPixel :: "image \<Rightarrow> int \<Rightarrow> int \<Rightarrow> int \<Rightarrow> image" where
  "image_setPixel img x y c =
     (if 0 \<le> x \<and> x < img_width img \<and> 0 \<le> y \<and> y < img_height img
      then img\<lparr>pixels := (pixels img)[nat (y * img_width img + x) := c]\<rparr>
      else img)"

text \<open>A depth cell: \<^verbatim>\<open>Infinity\<close> after a clear, a depth written by the rasterizer later.\<close>

datatype depth = Finite real | Infinity

text \<open>
  \<^verbatim>\<open>this.depthBuffer[idx]\<close>: outside the array the read gives \<^verbatim>\<open>undefined\<close> (\<open>None\<close>).
\<close>

definition depth_at :: "depth list \<Rightarrow> int \<Rightarrow> depth option" where
  "depth_at ds idx = (if 0 \<le> idx \<and> idx < int (length ds) then Some (ds ! nat idx) else None)"

text \<open>
  \<^verbatim>\<open>z < this.depthBuffer[idx]\<close>: true against \<^verbatim>\<open>Infinity\<close>, false against \<^verbatim>\<open>undefined\<close>.
\<close>

fun depth_less :: "real \<Rightarrow> depth option \<Rightarrow> bool" where
  "depth_less z None = False"
| "depth_less z (Some Infinity) = True"
| "depth_less z (Some (Finite d)) = (z < d)"

text \<open>The order of depth cells, \<^verbatim>\<open>Infinity\<close> on top, and the smaller of two cells.\<close>

fun depth_le :: "depth \<Rightarrow> depth \<Rightarrow> bool" where
  "depth_le d Infinity = True"
| "depth_le Infinity (Finite b) = False"
| "depth_le (Finite a) (Finite b) = (a \<le> b)"

definition depth_min :: "depth \<Rightarrow> depth \<Rightarrow> depth" where
  "depth_min a b = (if depth_le a b then a else b)"

subsection \<open>The class-based renderer\<close>

record renderer =
  width :: int
  height :: int
  buffer :: image
  depthBuffer :: "depth list"

text \<open>The constructor pushes \<^verbatim>\<open>Infinity\<close> once for every \<open>i\<close> from 0 below width * height.\<close>

definition Renderer_new :: "int \<Rightarrow> int \<Rightarrow> renderer" where
  "Renderer_new wd ht =
     \<lparr>width = wd, height = ht, buffer = image_create wd ht,
      depthBuffer = replicate (nat (wd * ht)) Infinity\<rparr>"

definition clear :: "renderer \<Rightarrow> renderer" where
  "clear r = r\<lparr>buffer := image_fill (buffer r) 0,
               depthBuffer := replicate (length (depthBuffer r)) Infinity\<rparr>"

text \<open>
  \<^verbatim>\<open>interpolateVarying\<close>, one key of the first vertex's output at a time. \<^verbatim>\<open>position\<close> is
  skipped. For a number the three values are blended; a partner that is not a number makes
  the blend NaN. For a \<^verbatim>\<open>Vec3\<close> the three vectors are blended; a missing partner is
  \<^verbatim>\<open>undefined\<close> and reading its \<^verbatim>\<open>x\<close> throws, a partner that is not a \<^verbatim>\<open>Vec3\<close> has no
  numeric components. Any other first value sets no key.
\<close>

definition interpolate_key ::
  "vertex_output \<Rightarrow> vertex_output \<Rightarrow> weights \<Rightarrow> string \<times> varying_value \<Rightarrow>
   fault + (string \<times> varying_value) list" where
  "interpolate_key v1 v2 b kv =
     (let key = fst kv; val0 = snd kv;
          val1 = map_of (varyings v1) key;
          val2 = map_of (varyings v2) key
      in if key = ''position'' then Inr []
         else case val0 of
           Scalar a0 \<Rightarrow>
             (case (val1, val2) of
                (Some (Scalar a1), Some (Scalar a2)) \<Rightarrow>
                  Inr [(key, Scalar (a0 * bary_u b + a1 * bary_v b + a2 * bary_w b))]
              | _ \<Rightarrow> Inr [(key, Other)])
         | Vector c0 \<Rightarrow>
             (case (val1, val2) of
                (None, _) \<Rightarrow> Inl TypeError
              | (_, None) \<Rightarrow> Inl TypeError
              | (Some (Vector c1), Some (Vector c2)) \<Rightarrow>
                  Inr [(key, Vector (Vec3
                    (vec3_x c0 * bary_u b + vec3_x c1 * bary_v b + vec3_x c2 * bary_w b)
                    (vec3_y c0 * bary_u b + vec3_y c1 * bary_v b + vec3_y c2 * bary_w b)
                    (vec3_z c0 * bary_u b + vec3_z c1 * bary_v b + vec3_z c2 * bary_w b)))]
              | _ \<Rightarrow> Inr [(key, Other)])
         | Other \<Rightarrow> Inr [])"

fun interpolate_keys ::
  "vertex_output \<Rightarrow> vertex_output \<Rightarrow> weights \<Rightarrow> (string \<times> varying_value) list \<Rightarrow>
   fault + (string \<times> varying_value) list" where
  "interpolate_keys v1 v2 b [] = Inr []"
| "interpolate_keys v1 v2 b (kv # kvs) =
     (case interpolate_key v1 v2 b kv of
        Inl e \<Rightarrow> Inl e
      | Inr r \<Rightarrow>
          (case interpolate_keys v1 v2 b kvs of
             Inl e \<Rightarrow> Inl e
           | Inr rs \<Rightarrow> Inr (r @ rs)))"

definition interpolateVarying ::
  "vertex_output \<Rightarrow> vertex_output \<Rightarrow> vertex_output \<Rightarrow> weights \<Rightarrow> fault + vertex_output" where
  "interpolateVarying v0 v1 v2 b =
     (case interpolate_keys v1 v2 b (varyings v0) of
        Inl e \<Rightarrow> Inl e
      | Inr kvs \<Rightarrow> Inr \<lparr>position = Vec4 0 0 0 1, varyings = kvs\<rparr>)"

text \<open>A loop whose body may stop the draw call.\<close>

fun fold_fault :: "('a \<Rightarrow> 's \<Rightarrow> fault + 's) \<Rightarrow> 'a list \<Rightarrow> 's \<Rightarrow> fault + 's" where
  "fold_fault f [] s = Inr s"
| "fold_fault f (a # as) s =
     (case f a s of Inl e \<Rightarrow> Inl e | Inr s' \<Rightarrow> fold_fault f as s')"

text \<open>
  The body of the two pixel loops of \<^verbatim>\<open>rasterizeTriangle\<close> at pixel (x, y): coverage
  test, depth test, and on acceptance the depth write, interpolation, fragment shader and
  \<^verbatim>\<open>setPixel\<close>.
\<close>

definition shade_pixel ::
  "screen_point \<Rightarrow> screen_point \<Rightarrow> screen_point \<Rightarrow>
   vertex_output \<Rightarrow> vertex_output \<Rightarrow> vertex_output \<Rightarrow> 'u fragment_shader \<Rightarrow> 'u \<Rightarrow>
   int \<Rightarrow> int \<Rightarrow> renderer \<Rightarrow> fault + renderer" where
  "shade_pixel p0 p1 p2 v0 v1 v2 fragShader uniforms y x r =
     (let b = barycentric (of_int x) (of_int y) p0 p1 p2
      in if bary_u b \<ge> 0 \<and> bary_v b \<ge> 0 \<and> bary_w b \<ge> 0 then
           (let z = pz p0 * bary_u b + pz p1 * bary_v b + pz p2 * bary_w b;
                idx = y * width r + x
            in if depth_less z (depth_at (depthBuffer r) idx) then
                 (case interpolateVarying v0 v1 v2 b of
                    Inl e \<Rightarrow> Inl e
                  | Inr varying \<Rightarrow>
                      (let color = fragShader varying uniforms
                       in Inr (r\<lparr>depthBuffer := (depthBuffer r)[nat idx := Finite z],
                                 buffer := image_setPixel (buffer r) x y (intensity color)\<rparr>)))
               else Inr r)
         else Inr r)"

definition rasterizeTriangle ::
  "screen_point \<Rightarrow> screen_point \<Rightarrow> screen_point \<Rightarrow>
   vertex_output \<Rightarrow> vertex_output \<Rightarrow> vertex_output \<Rightarrow> 'u fragment_shader \<Rightarrow> 'u \<Rightarrow>
   renderer \<Rightarrow> fault + renderer" where
  "rasterizeTriangle p0 p1 p2 v0 v1 v2 fragShader uniforms r =
     (let minX = max 0 \<lfloor>min (px p0) (min (px p1) (px p2))\<rfloor>;
          maxX = min (width r - 1) \<lceil>max (px p0) (max (px p1) (px p2))\<rceil>;
          minY = max 0 \<lfloor>min (py p0) (min (py p1) (py p2))\<rfloor>;
          maxY = min (height r - 1) \<lceil>max (py p0) (max (py p1) (py p2))\<rceil>
      in fold_fault
           (\<lambda>y. fold_fault (shade_pixel p0 p1 p2 v0 v1 v2 fragShader uniforms y) [minX..maxX])
           [minY..maxY] r)"

text \<open>
  One pass of the loop of \<^verbatim>\<open>render\<close>: the vertex shader on the three vertices in
  order, then for each output the perspective divide and the viewport transform, then
  \<^verbatim>\<open>rasterizeTriangle\<close>.
\<close>

definition shade_vertices ::
  "'a list \<Rightarrow> ('a, 'u) vertex_shader \<Rightarrow> 'u \<Rightarrow> int option \<times> int option \<times> int option \<Rightarrow>
   fault + vertex_output \<times> vertex_output \<times> vertex_output" where
  "shade_vertices vs vertShader uniforms t =
     (case t of (i0, i1, i2) \<Rightarrow>
        (case vertShader (vertex_of vs i0) uniforms of
           Inl e \<Rightarrow> Inl e
         | Inr v0 \<Rightarrow>
             (case vertShader (vertex_of vs i1) uniforms of
                Inl e \<Rightarrow> Inl e
              | Inr v1 \<Rightarrow>
                  (case vertShader (vertex_of vs i2) uniforms of
                     Inl e \<Rightarrow> Inl e
                   | Inr v2 \<Rightarrow> Inr (v0, v1, v2)))))"

definition screen_of :: "int \<Rightarrow> int \<Rightarrow> vertex_output \<Rightarrow> screen_point" where
  "screen_of wd ht v = toScreen wd ht (perspectiveDivide (position v))"

definition render_triangle ::
  "'a list \<Rightarrow> ('a, 'u) vertex_shader \<Rightarrow> 'u fragment_shader \<Rightarrow> 'u \<Rightarrow>
   int option \<times> int option \<times> int option \<Rightarrow> renderer \<Rightarrow> fault + renderer" where
  "render_triangle vs vertShader fragShader uniforms t r =
     (case shade_vertices vs vertShader uniforms t of
        Inl e \<Rightarrow> Inl e
      | Inr (v0, v1, v2) \<Rightarrow>
          rasterizeTriangle (screen_of (width r) (height r) v0) (screen_of (width r) (height r) v1)
            (screen_of (width r) (height r) v2) v0 v1 v2 fragShader uniforms r)"

definition render ::
  "'a geometry \<Rightarrow> ('a, 'u) vertex_shader \<Rightarrow> 'u fragment_shader \<Rightarrow> 'u \<Rightarrow>
   renderer \<Rightarrow> fault + renderer" where
  "render geometry vertShader fragShader uniforms r =
     fold_fault (render_triangle (vertices geometry) vertShader fragShader uniforms)
       (index_triples (indices geometry)) r"

text \<open>
  A frame is \<^verbatim>\<open>clear()\<close> followed by draw calls; \<open>render_all\<close> runs a list of draw calls,
  each with its own geometry, shaders and uniforms, on the same buffers.
\<close>

type_synonym ('a, 'u) draw_call =
  "'a geometry \<times> ('a, 'u) vertex_shader \<times> 'u fragment_shader \<times> 'u"

definition render_all :: "('a, 'u) draw_call list \<Rightarrow> renderer \<Rightarrow> fault + renderer" where
  "render_all calls r = fold_fault (\<lambda>(g, vs, fs, u). render g vs fs u) calls r"


subsection \<open>The array-based renderer\<close>

text \<open>
  The second renderer of the repository keeps vectors in \<^verbatim>\<open>number[]\<close>. An array the
  renderer builds itself (\<^verbatim>\<open>[x, y, z]\<close>, \<^verbatim>\<open>[u, v, w]\<close>) has the length of its literal
  and is read with \<open>!\<close>; an array a shader returns is taken apart by pattern, and one that
  is too short for a read stops the draw call with \<open>NotANumber\<close>.
\<close>








text \<open>
  Its \<^verbatim>\<open>toScreen\<close> does the perspective divide and the viewport transform in one
  function, on the shader's output \<^verbatim>\<open>[x, y, z, w, ...]\<close>.
\<close>

definition toScreen_opt :: "int \<Rightarrow> int \<Rightarrow> real list \<Rightarrow> fault + real list" where
  "toScreen_opt wd ht v =
     (case v of
        v0 # v1 # v2 # w # _ \<Rightarrow>
          if \<bar>w\<bar> < 1 / 10000 then Inr [0, 0, 0]
          else (let x = v0 / w; y = v1 / w; z = v2 / w
                in Inr [of_int \<lfloor>(x + 1) * (1 / 2) * of_int wd\<rfloor>,
                        of_int \<lfloor>(1 - y) * (1 / 2) * of_int ht\<rfloor>,
                        z])
      | _ \<Rightarrow> Inl NotANumber)"










subsection \<open>Notions used in the proofs\<close>

text \<open>
  \<open>depth_mono r r'\<close>: the renderer \<open>r'\<close> has the dimensions of \<open>r\<close> and no depth cell of
  \<open>r'\<close> is above the same cell of \<open>r\<close>.
\<close>

definition depth_mono :: "renderer \<Rightarrow> renderer \<Rightarrow> bool" where
  "depth_mono r r' \<longleftrightarrow>
     width r' = width r \<and> height r' = height r \<and>
     length (depthBuffer r') = length (depthBuffer r) \<and>
     (\<forall>i < length (depthBuffer r). depth_le (depthBuffer r' ! i) (depthBuffer r ! i))"

text \<open>
  A pixel is settled for a triangle when the loop body would leave the renderer as it is:
  the pixel is not covered, or its interpolated depth is not below the stored one.
\<close>

definition pixel_settled ::
  "screen_point \<Rightarrow> screen_point \<Rightarrow> screen_point \<Rightarrow> int \<Rightarrow> int \<Rightarrow> renderer \<Rightarrow> bool" where
  "pixel_settled p0 p1 p2 y x r =
     (let b = barycentric (of_int x) (of_int y) p0 p1 p2
      in bary_u b \<ge> 0 \<and> bary_v b \<ge> 0 \<and> bary_w b \<ge> 0 \<longrightarrow>
         \<not> depth_less (pz p0 * bary_u b + pz p1 * bary_v b + pz p2 * bary_w b)
              (depth_at (depthBuffer r) (y * width r + x)))"

text \<open>The columns and rows of the clamped bounding box, in scan order.\<close>

definition scan_xs :: "screen_point \<Rightarrow> screen_point \<Rightarrow> screen_point \<Rightarrow> int \<Rightarrow> int list" where
  "scan_xs p0 p1 p2 wd =
     [max 0 \<lfloor>min (px p0) (min (px p1) (px p2))\<rfloor> ..
      min (wd - 1) \<lceil>max (px p0) (max (px p1) (px p2))\<rceil>]"

definition scan_ys :: "screen_point \<Rightarrow> screen_point \<Rightarrow> screen_point \<Rightarrow> int \<Rightarrow> int list" where
  "scan_ys p0 p1 p2 ht =
     [max 0 \<lfloor>min (py p0) (min (py p1) (py p2))\<rfloor> ..
      min (ht - 1) \<lceil>max (py p0) (max (py p1) (py p2))\<rceil>]"

definition triangle_settled ::
  "screen_point \<Rightarrow> screen_point \<Rightarrow> screen_point \<Rightarrow> renderer \<Rightarrow> bool" where
  "triangle_settled p0 p1 p2 r \<longleftrightarrow>
     (\<forall>y \<in> set (scan_ys p0 p1 p2 (height r)).
        \<forall>x \<in> set (scan_xs p0 p1 p2 (width r)). pixel_settled p0 p1 p2 y x r)"


text \<open>
  The depth test on its own: \<open>depth_store\<close> is what one covered pixel with index \<open>idx\<close> and
  interpolated depth \<open>z\<close> does to the depth buffer. The fragments of a triangle are the
  pairs \<open>(idx, z)\<close> of its covered pixels in scan order; those of a draw call and of a list
  of draw calls follow the loops of \<^verbatim>\<open>render\<close>.
\<close>

definition depth_store :: "depth list \<Rightarrow> int \<times> real \<Rightarrow> depth list" where
  "depth_store ds f =
     (if depth_less (snd f) (depth_at ds (fst f)) then ds[nat (fst f) := Finite (snd f)] else ds)"

definition pixel_fragment ::
  "screen_point \<Rightarrow> screen_point \<Rightarrow> screen_point \<Rightarrow> int \<Rightarrow> int \<Rightarrow> int \<Rightarrow> (int \<times> real) list" where
  "pixel_fragment p0 p1 p2 wd y x =
     (let b = barycentric (of_int x) (of_int y) p0 p1 p2
      in if bary_u b \<ge> 0 \<and> bary_v b \<ge> 0 \<and> bary_w b \<ge> 0
         then [(y * wd + x, pz p0 * bary_u b + pz p1 * bary_v b + pz p2 * bary_w b)]
         else [])"

definition triangle_fragments ::
  "screen_point \<Rightarrow> screen_point \<Rightarrow> screen_point \<Rightarrow> int \<Rightarrow> int \<Rightarrow> (int \<times> real) list" where
  "triangle_fragments p0 p1 p2 wd ht =
     concat (map (\<lambda>y. concat (map (pixel_fragment p0 p1 p2 wd y) (scan_xs p0 p1 p2 wd)))
                 (scan_ys p0 p1 p2 ht))"

definition triangle_fragments_of ::
  "'a list \<Rightarrow> ('a, 'u) vertex_shader \<Rightarrow> 'u \<Rightarrow> int \<Rightarrow> int \<Rightarrow>
   int option \<times> int option \<times> int option \<Rightarrow> (int \<times> real) list" where
  "triangle_fragments_of vs vertShader uniforms wd ht t =
     (case shade_vertices vs vertShader uniforms t of
        Inl e \<Rightarrow> []
      | Inr (v0, v1, v2) \<Rightarrow>
          triangle_fragments (screen_of wd ht v0) (screen_of wd ht v1) (screen_of wd ht v2) wd ht)"

definition render_fragments ::
  "'a list \<Rightarrow> ('a, 'u) vertex_shader \<Rightarrow> 'u \<Rightarrow> int \<Rightarrow> int \<Rightarrow> int list \<Rightarrow> (int \<times> real) list" where
  "render_fragments vs vertShader uniforms wd ht is =
     concat (map (triangle_fragments_of vs vertShader uniforms wd ht) (index_triples is))"

definition calls_fragments ::
  "('a, 'u) draw_call list \<Rightarrow> int \<Rightarrow> int \<Rightarrow> (int \<times> real) list" where
  "calls_fragments calls wd ht =
     concat (map (\<lambda>(g, vs, fs, u). render_fragments (vertices g) vs u wd ht (indices g)) calls)"

text \<open>
  The fragments that pass the depth test when a list of fragments is applied in order, the
  depths among them that belong to one cell, and the minimum of a list of depth cells
  together with \<^verbatim>\<open>Infinity\<close>.
\<close>

fun accepted :: "depth list \<Rightarrow> (int \<times> real) list \<Rightarrow> (int \<times> real) list" where
  "accepted ds [] = []"
| "accepted ds (f # fs) =
     (if depth_less (snd f) (depth_at ds (fst f))
      then f # accepted (ds[nat (fst f) := Finite (snd f)]) fs
      else accepted ds fs)"

definition depths_at :: "int \<Rightarrow> (int \<times> real) list \<Rightarrow> depth list" where
  "depths_at i fs = map (\<lambda>f. Finite (snd f)) (filter (\<lambda>f. fst f = i) fs)"

definition min_depth :: "depth list \<Rightarrow> depth" where
  "min_depth ds = foldr depth_min ds Infinity"

subsection \<open>Correspondence of the two renderers\<close>



text \<open>
  A class-based vertex output with exactly a clip position and one \<^verbatim>\<open>Vec3\<close> varying
  named \<^verbatim>\<open>normal\<close>, and the array forms of a \<^verbatim>\<open>Vec3\<close> and of a screen point.
\<close>

definition normal_output :: "vec4 \<Rightarrow> vec3 \<Rightarrow> vertex_output" where
  "normal_output c nrm = \<lparr>position = c, varyings = [(''normal'', Vector nrm)]\<rparr>"








subsection \<open>A fixture\<close>

text \<open>
  One triangle on a 2 by 2 renderer, for both renderers: positions are given in clip space
  with w = 1, the normal is passed through, and the fragment shader reads the interpolated
  normal. \<open>frame\<close> is a 2 by 2 renderer state with the given pixels and depths.
\<close>

definition fixture_vertices :: "vertex_attributes list" where
  "fixture_vertices =
     [\<lparr>attr_position = Vec3 (- 1) 1 0, attr_extra = [(''normal'', Vector (Vec3 0 0 1))]\<rparr>,
      \<lparr>attr_position = Vec3 1 1 (1 / 2), attr_extra = [(''normal'', Vector (Vec3 0 1 0))]\<rparr>,
      \<lparr>attr_position = Vec3 (- 1) (- 1) 1, attr_extra = [(''normal'', Vector (Vec3 1 0 0))]\<rparr>]"

definition fixture_geometry :: "vertex_attributes geometry" where
  "fixture_geometry = \<lparr>vertices = fixture_vertices, indices = [0, 1, 2]\<rparr>"

definition fixture_vertShader :: "(vertex_attributes, unit) vertex_shader" where
  "fixture_vertShader attributes u =
     (case attributes of
        None \<Rightarrow> Inl TypeError
      | Some a \<Rightarrow>
          Inr \<lparr>position = Vec4 (vec3_x (attr_position a)) (vec3_y (attr_position a))
                                (vec3_z (attr_position a)) 1,
               varyings = attr_extra a\<rparr>)"

definition fixture_fragShader :: "unit fragment_shader" where
  "fixture_fragShader v u =
     (case map_of (varyings v) ''normal'' of
        Some (Vector nrm) \<Rightarrow> 15 * vec3_z nrm + 3 * vec3_y nrm
      | _ \<Rightarrow> 0)"

definition frame :: "int list \<Rightarrow> depth list \<Rightarrow> renderer" where
  "frame ps ds = \<lparr>width = 2, height = 2,
          buffer = \<lparr>img_width = 2, img_height = 2, pixels = ps\<rparr>, depthBuffer = ds\<rparr>"





definition fixture_frame :: renderer where
  "fixture_frame = frame [15, 9, 7, 1] [Finite 0, Finite (1 / 4), Finite (1 / 2), Finite (3 / 4)]"

text \<open>
  The same with a second triangle in front of the first: same screen positions, depth -1
  everywhere.
\<close>

definition overlap_vertices :: "vertex_attributes list" where
  "overlap_vertices = fixture_vertices @
     [\<lparr>attr_position = Vec3 (- 1) 1 (- 1), attr_extra = [(''normal'', Vector (Vec3 0 0 1))]\<rparr>,
      \<lparr>attr_position = Vec3 1 1 (- 1), attr_extra = [(''normal'', Vector (Vec3 0 0 1))]\<rparr>,
      \<lparr>attr_position = Vec3 (- 1) (- 1) (- 1), attr_extra = [(''normal'', Vector (Vec3 0 0 1))]\<rparr>]"

definition overlap_geometry :: "vertex_attributes geometry" where
  "overlap_geometry = \<lparr>vertices = overlap_vertices, indices = [0, 1, 2, 3, 4, 5]\<rparr>"

definition overlap_frame :: renderer where
  "overlap_frame = frame [15, 15, 15, 15] [Finite (- 1), Finite (- 1), Finite (- 1), Finite (- 1)]"




section \<open>Theorems\<close>

subsection \<open>Matrices\<close>

lemma mat4_16:
  assumes "length xs = 16"
  obtains a0 a1 a2 a3 a4 a5 a6 a7 a8 a9 a10 a11 a12 a13 a14 a15 :: 'a
  where "xs = [a0, a1, a2, a3, a4, a5, a6, a7, a8, a9, a10, a11, a12, a13, a14, a15]"
proof -
  have "length xs = Suc (Suc (Suc (Suc (Suc (Suc (Suc (Suc
          (Suc (Suc (Suc (Suc (Suc (Suc (Suc (Suc 0)))))))))))))))"
    using assms by simp
  then show ?thesis
    using that by (auto simp: length_Suc_conv)
qed

lemma upt_4: "[0..<4] = [0, 1, 2, 3]"
  by (simp add: upt_rec)

text \<open>
  C9. For every 4x4 matrix M (sixteen entries), \<open>multiply(identity(), M)\<close> and
  \<open>multiply(M, identity())\<close> both equal M, entry by entry.
\<close>

theorem C9_multiply_identity:
  assumes "length (m M) = 16"
  shows "Mat4_multiply Mat4_identity M = M \<and> Mat4_multiply M Mat4_identity = M"
proof -
  obtain a0 a1 a2 a3 a4 a5 a6 a7 a8 a9 a10 a11 a12 a13 a14 a15
    where M: "m M = [a0, a1, a2, a3, a4, a5, a6, a7, a8, a9, a10, a11, a12, a13, a14, a15]"
    using mat4_16 [OF assms] by blast
  have l: "m (Mat4_multiply Mat4_identity M) = m M"
    by (simp add: Mat4_multiply_def multiply_row_def multiply_sum_def Mat4_identity_def
        Mat4_new_def upt_4 M)
  have r: "m (Mat4_multiply M Mat4_identity) = m M"
    by (simp add: Mat4_multiply_def multiply_row_def multiply_sum_def Mat4_identity_def
        Mat4_new_def upt_4 M)
  show ?thesis
    using l r by simp
qed

theorem C9_multiply_identity_witness:
  "Mat4_multiply Mat4_identity (Mat4_perspective 1 1 1 2) = Mat4_perspective 1 1 1 2 \<and>
   Mat4_multiply (Mat4_perspective 1 1 1 2) Mat4_identity = Mat4_perspective 1 1 1 2"
  using C9_multiply_identity [of "Mat4_perspective 1 1 1 2"]
  by (simp add: Mat4_perspective_def Mat4_new_def Let_def)


subsection \<open>The projection matrix\<close>






subsection \<open>Intensity\<close>

lemma intensity_spec: "intensity color = spec_clamp_truncate color"
  by (auto simp add: intensity_def spec_clamp_truncate_def truncate_real_def max_def min_def)

subsection \<open>Viewport transform\<close>





subsection \<open>Barycentric weights\<close>

lemma edge_side_convex:
  assumes "a + b + c = 1"
    and "x = a * px p0 + b * px p1 + c * px p2"
    and "y = a * py p0 + b * py p1 + c * py p2"
  shows "edge_side p0 p1 x y = c * denom p0 p1 p2"
    and "edge_side p1 p2 x y = a * denom p0 p1 p2"
    and "edge_side p2 p0 x y = b * denom p0 p1 p2"
proof -
  have a: "a = 1 - b - c" using assms(1) by simp
  show "edge_side p0 p1 x y = c * denom p0 p1 p2"
    unfolding assms(2,3) a by (simp add: edge_side_def denom_def Let_def algebra_simps)
  show "edge_side p1 p2 x y = a * denom p0 p1 p2"
    unfolding assms(2,3) a by (simp add: edge_side_def denom_def Let_def algebra_simps)
  show "edge_side p2 p0 x y = b * denom p0 p1 p2"
    unfolding assms(2,3) a by (simp add: edge_side_def denom_def Let_def algebra_simps)
qed

lemma edge_side_point:
  "edge_side p1 p2 x y * px p0 + edge_side p2 p0 x y * px p1 + edge_side p0 p1 x y * px p2 = x * denom p0 p1 p2"
  "edge_side p1 p2 x y * py p0 + edge_side p2 p0 x y * py p1 + edge_side p0 p1 x y * py p2 = y * denom p0 p1 p2"
  by (simp_all add: edge_side_def denom_def Let_def algebra_simps)


lemma edge_side_numerators:
  "(x - px p0) * (py p2 - py p0) - (px p2 - px p0) * (y - py p0) = edge_side p2 p0 x y"
  "(px p1 - px p0) * (y - py p0) - (x - px p0) * (py p1 - py p0) = edge_side p0 p1 x y"
  "edge_side p0 p1 x y + edge_side p1 p2 x y + edge_side p2 p0 x y = denom p0 p1 p2"
  by (simp_all add: edge_side_def denom_def Let_def algebra_simps)


lemma barycentric_degenerate:
  assumes "\<bar>denom p0 p1 p2\<bar> < 1 / 1000"
  shows "barycentric x y p0 p1 p2 = Weights (- 1) (- 1) (- 1)"
proof -
  have "barycentric x y p0 p1 p2 =
      (if \<bar>denom p0 p1 p2\<bar> < 1 / 1000 then Weights (- 1) (- 1) (- 1)
       else Weights (1 - ((x - px p0) * (py p2 - py p0) - (px p2 - px p0) * (y - py p0)) / denom p0 p1 p2
                    - ((px p1 - px p0) * (y - py p0) - (x - px p0) * (py p1 - py p0)) / denom p0 p1 p2)
                 (((x - px p0) * (py p2 - py p0) - (px p2 - px p0) * (y - py p0)) / denom p0 p1 p2)
                 (((px p1 - px p0) * (y - py p0) - (x - px p0) * (py p1 - py p0)) / denom p0 p1 p2))"
    by (simp only: barycentric_def denom_def Let_def)
  then show ?thesis
    using assms by (simp only: if_True)
qed


lemma same_sign_weights:
  fixes u v w D :: real
  assumes "D \<noteq> 0" "u + v + w = 1"
  shows "((0 \<le> w * D \<and> 0 \<le> u * D \<and> 0 \<le> v * D) \<or> (w * D \<le> 0 \<and> u * D \<le> 0 \<and> v * D \<le> 0))
     \<longleftrightarrow> (0 \<le> u \<and> 0 \<le> v \<and> 0 \<le> w)"
proof (cases "0 < D")
  case True
  then show ?thesis using assms(2)
    by (auto simp: zero_le_mult_iff mult_le_0_iff)
next
  case False
  then have "D < 0" using assms by simp
  then show ?thesis using assms(2)
    by (auto simp: zero_le_mult_iff mult_le_0_iff)
qed


text \<open>
  The edge test is the closed triangle: for a triangle with area, a point passes it exactly
  when it is a convex combination of the three corners.
\<close>

lemma inside_triangle_convex:
  assumes nz: "denom p0 p1 p2 \<noteq> 0"
  shows "inside_triangle x y p0 p1 p2 \<longleftrightarrow>
     (\<exists>a b c. 0 \<le> a \<and> 0 \<le> b \<and> 0 \<le> c \<and> a + b + c = 1 \<and>
        x = a * px p0 + b * px p1 + c * px p2 \<and> y = a * py p0 + b * py p1 + c * py p2)"
proof
  assume i: "inside_triangle x y p0 p1 p2"
  define a where "a = edge_side p1 p2 x y / denom p0 p1 p2"
  define b where "b = edge_side p2 p0 x y / denom p0 p1 p2"
  define c where "c = edge_side p0 p1 x y / denom p0 p1 p2"
  have e: "edge_side p1 p2 x y = a * denom p0 p1 p2" "edge_side p2 p0 x y = b * denom p0 p1 p2"
    "edge_side p0 p1 x y = c * denom p0 p1 p2"
    using nz by (simp_all add: a_def b_def c_def)
  have "(a + b + c) * denom p0 p1 p2 = denom p0 p1 p2"
    using edge_side_numerators(3) [of p0 p1 x y p2] by (simp add: e algebra_simps)
  then have s: "a + b + c = 1" using nz by simp
  have pos: "0 \<le> a \<and> 0 \<le> b \<and> 0 \<le> c"
    using i same_sign_weights [OF nz s] unfolding inside_triangle_def e by blast
  have "(a * px p0 + b * px p1 + c * px p2) * denom p0 p1 p2 = x * denom p0 p1 p2"
    using edge_side_point(1) [of p1 p2 x y p0] by (simp add: e algebra_simps)
  then have x: "x = a * px p0 + b * px p1 + c * px p2" using nz by simp
  have "(a * py p0 + b * py p1 + c * py p2) * denom p0 p1 p2 = y * denom p0 p1 p2"
    using edge_side_point(2) [of p1 p2 x y p0] by (simp add: e algebra_simps)
  then have y: "y = a * py p0 + b * py p1 + c * py p2" using nz by simp
  from pos s x y show "\<exists>a b c. 0 \<le> a \<and> 0 \<le> b \<and> 0 \<le> c \<and> a + b + c = 1 \<and>
        x = a * px p0 + b * px p1 + c * px p2 \<and> y = a * py p0 + b * py p1 + c * py p2"
    by blast
next
  assume "\<exists>a b c. 0 \<le> a \<and> 0 \<le> b \<and> 0 \<le> c \<and> a + b + c = 1 \<and>
        x = a * px p0 + b * px p1 + c * px p2 \<and> y = a * py p0 + b * py p1 + c * py p2"
  then obtain a b c where pos: "0 \<le> a" "0 \<le> b" "0 \<le> c" and s: "a + b + c = 1"
    and x: "x = a * px p0 + b * px p1 + c * px p2" and y: "y = a * py p0 + b * py p1 + c * py p2"
    by blast
  show "inside_triangle x y p0 p1 p2"
    unfolding inside_triangle_def edge_side_convex [OF s x y]
    using same_sign_weights [OF nz s] pos by blast
qed



subsection \<open>Perspective divide\<close>

lemma toScreen_opt_4: "toScreen_opt wd ht (x # y # z # w # rest) =
         (if \<bar>w\<bar> < 1 / 10000 then Inr [0, 0, 0]
          else Inr [px (toScreen wd ht (Vec3 (x / w) (y / w) (z / w))),
                    py (toScreen wd ht (Vec3 (x / w) (y / w) (z / w))),
                    pz (toScreen wd ht (Vec3 (x / w) (y / w) (z / w)))])"
  by (simp add: toScreen_opt_def toScreen_def Let_def)

text \<open>
  C2 as stated fails for the array-based renderer: with w = 0 its \<^verbatim>\<open>toScreen\<close> returns
  the screen point [0, 0, 0], not the viewport transform of the unchanged (x, y, z).
\<close>

theorem C2_perspective_divide_counterexample:
  "\<bar>0::real\<bar> < 1 / 10000 \<and>
   toScreen_opt 160 120 [1, 1, 1, 0] \<noteq>
     Inr [px (toScreen 160 120 (Vec3 1 1 1)), py (toScreen 160 120 (Vec3 1 1 1)),
          pz (toScreen 160 120 (Vec3 1 1 1))]"
  by (simp add: toScreen_opt_def toScreen_def)

text \<open>
  C2, amended. For every clip-space position (x, y, z, w): if \<open>|w| < 1e-4\<close>, the class-based
  \<^verbatim>\<open>perspectiveDivide\<close> returns (x, y, z) unchanged and the array-based \<^verbatim>\<open>toScreen\<close>
  returns the screen point [0, 0, 0]; otherwise w is not zero, the class-based divide
  returns (x/w, y/w, z/w) and the array-based \<^verbatim>\<open>toScreen\<close> returns the viewport transform
  of (x/w, y/w, z/w). Neither stops the draw call.
\<close>

theorem C2_perspective_divide_amended:
  "(\<bar>w\<bar> < 1 / 10000 \<longrightarrow>
      perspectiveDivide (Vec4 x y z w) = Vec3 x y z \<and>
      toScreen_opt wd ht (x # y # z # w # rest) = Inr [0, 0, 0]) \<and>
   (\<not> \<bar>w\<bar> < 1 / 10000 \<longrightarrow>
      w \<noteq> 0 \<and>
      perspectiveDivide (Vec4 x y z w) = Vec3 (x / w) (y / w) (z / w) \<and>
      toScreen_opt wd ht (x # y # z # w # rest) =
        Inr [px (toScreen wd ht (Vec3 (x / w) (y / w) (z / w))),
             py (toScreen wd ht (Vec3 (x / w) (y / w) (z / w))),
             pz (toScreen wd ht (Vec3 (x / w) (y / w) (z / w)))])"
  by (auto simp add: perspectiveDivide_def toScreen_opt_4)

theorem C2_perspective_divide_amended_witness:
  "perspectiveDivide (Vec4 1 2 3 0) = Vec3 1 2 3 \<and>
   toScreen_opt 160 120 [1, 2, 3, 0] = Inr [0, 0, 0] \<and>
   perspectiveDivide (Vec4 1 2 3 2) = Vec3 (1 / 2) 1 (3 / 2) \<and>
   toScreen_opt 160 120 [1, 2, 3, 2] = Inr [120, 0, 3 / 2]"
  using C2_perspective_divide_amended [of 0 1 2 3 160 120 "[]"]
    C2_perspective_divide_amended [of 2 1 2 3 160 120 "[]"]
  by (simp add: toScreen_def)


subsection \<open>Depth test: settled pixels\<close>

lemma depth_le_refl: "depth_le d d"
  by (cases d) simp_all

lemma depth_le_trans: "depth_le a b \<Longrightarrow> depth_le b c \<Longrightarrow> depth_le a c"
  by (cases a; cases b; cases c) simp_all

lemma depth_mono_refl: "depth_mono r r"
  by (simp add: depth_mono_def depth_le_refl)

lemma depth_mono_trans: "depth_mono r s \<Longrightarrow> depth_mono s t \<Longrightarrow> depth_mono r t"
  unfolding depth_mono_def by (auto intro: depth_le_trans)

lemma depth_less_le: "\<not> depth_less z (Some a) \<Longrightarrow> depth_le b a \<Longrightarrow> \<not> depth_less z (Some b)"
  by (cases a; cases b) simp_all

lemma depth_less_Finite: "depth_less z (Some a) \<Longrightarrow> depth_le (Finite z) a"
  by (cases a) simp_all

lemma depth_at_mono:
  assumes "depth_mono r r'" "\<not> depth_less z (depth_at (depthBuffer r) i)"
  shows "\<not> depth_less z (depth_at (depthBuffer r') i)"
proof (cases "0 \<le> i \<and> i < int (length (depthBuffer r))")
  case True
  then have "nat i < length (depthBuffer r)" by linarith
  then have "depth_le (depthBuffer r' ! nat i) (depthBuffer r ! nat i)"
    using assms(1) by (simp add: depth_mono_def)
  moreover have "\<not> depth_less z (Some (depthBuffer r ! nat i))"
    using assms(2) True by (simp add: depth_at_def)
  ultimately have "\<not> depth_less z (Some (depthBuffer r' ! nat i))"
    by (rule depth_less_le [rotated])
  then show ?thesis
    using True assms(1) by (simp add: depth_at_def depth_mono_def)
next
  case False
  moreover have "length (depthBuffer r') = length (depthBuffer r)"
    using assms(1) by (simp add: depth_mono_def)
  ultimately have "depth_at (depthBuffer r') i = None"
    by (auto simp: depth_at_def)
  then show ?thesis by simp
qed

lemma pixel_settled_mono:
  assumes "pixel_settled p0 p1 p2 y x r" "depth_mono r r'"
  shows "pixel_settled p0 p1 p2 y x r'"
proof -
  have "width r' = width r" using assms(2) by (simp add: depth_mono_def)
  then show ?thesis
    using assms(1) depth_at_mono [OF assms(2)]
    unfolding pixel_settled_def Let_def by auto
qed

lemma shade_pixel_noop:
  "pixel_settled p0 p1 p2 y x r \<Longrightarrow> shade_pixel p0 p1 p2 v0 v1 v2 fs u y x r = Inr r"
  by (simp add: pixel_settled_def shade_pixel_def Let_def)

lemma shade_pixel_step:
  assumes "shade_pixel p0 p1 p2 v0 v1 v2 fs u y x r = Inr r'"
  shows "depth_mono r r' \<and> pixel_settled p0 p1 p2 y x r'"
  using assms unfolding shade_pixel_def pixel_settled_def depth_mono_def Let_def depth_at_def
  by (auto split: if_splits sum.splits simp: nth_list_update depth_le_refl depth_less_Finite)

lemma fold_fault_noop:
  assumes "\<And>a. a \<in> set as \<Longrightarrow> f a s = Inr s"
  shows "fold_fault f as s = Inr s"
  using assms by (induction as) simp_all

lemma fold_fault_settles:
  assumes step: "\<And>a s s'. f a s = Inr s' \<Longrightarrow> below s s' \<and> settled a s'"
      and pres: "\<And>a s s'. settled a s \<Longrightarrow> below s s' \<Longrightarrow> settled a s'"
      and refl: "\<And>s. below s s"
      and trans: "\<And>s t u. below s t \<Longrightarrow> below t u \<Longrightarrow> below s u"
      and run: "fold_fault f as s = Inr s'"
  shows "below s s' \<and> (\<forall>a\<in>set as. settled a s')"
  using run
proof (induction as arbitrary: s)
  case Nil
  then show ?case by (simp add: refl)
next
  case (Cons a as)
  from Cons.prems obtain t where t: "f a s = Inr t" and rest: "fold_fault f as t = Inr s'"
    by (auto split: sum.splits)
  from step [OF t] have "below s t" "settled a t" by simp_all
  moreover from Cons.IH [OF rest] have "below t s'" "\<forall>a\<in>set as. settled a s'" by simp_all
  ultimately show ?case
    using trans pres by auto
qed


lemma rasterizeTriangle_scan:
  "rasterizeTriangle p0 p1 p2 v0 v1 v2 fs u r =
     fold_fault (\<lambda>y. fold_fault (shade_pixel p0 p1 p2 v0 v1 v2 fs u y) (scan_xs p0 p1 p2 (width r)))
       (scan_ys p0 p1 p2 (height r)) r"
  by (simp add: rasterizeTriangle_def scan_xs_def scan_ys_def Let_def)

lemma row_step:
  assumes "fold_fault (shade_pixel p0 p1 p2 v0 v1 v2 fs u y) xs r = Inr r'"
  shows "depth_mono r r' \<and> (\<forall>x\<in>set xs. pixel_settled p0 p1 p2 y x r')"
  by (rule fold_fault_settles [where f = "shade_pixel p0 p1 p2 v0 v1 v2 fs u y", OF _ _ _ _ assms])
     (auto dest: shade_pixel_step pixel_settled_mono intro: depth_mono_refl depth_mono_trans)

lemma rows_step:
  assumes "fold_fault (\<lambda>y. fold_fault (shade_pixel p0 p1 p2 v0 v1 v2 fs u y) xs) ys r = Inr r'"
  shows "depth_mono r r' \<and> (\<forall>y\<in>set ys. \<forall>x\<in>set xs. pixel_settled p0 p1 p2 y x r')"
  by (rule fold_fault_settles
        [where f = "\<lambda>y. fold_fault (shade_pixel p0 p1 p2 v0 v1 v2 fs u y) xs"
           and settled = "\<lambda>y s. \<forall>x\<in>set xs. pixel_settled p0 p1 p2 y x s", OF _ _ _ _ assms])
     (auto dest: row_step pixel_settled_mono intro: depth_mono_refl depth_mono_trans)

lemma rasterizeTriangle_step:
  assumes "rasterizeTriangle p0 p1 p2 v0 v1 v2 fs u r = Inr r'"
  shows "depth_mono r r' \<and> triangle_settled p0 p1 p2 r'"
proof -
  from assms have run: "fold_fault (\<lambda>y. fold_fault (shade_pixel p0 p1 p2 v0 v1 v2 fs u y)
      (scan_xs p0 p1 p2 (width r))) (scan_ys p0 p1 p2 (height r)) r = Inr r'"
    by (simp add: rasterizeTriangle_scan)
  from rows_step [OF run] have m: "depth_mono r r'"
    and s: "\<forall>y\<in>set (scan_ys p0 p1 p2 (height r)).
              \<forall>x\<in>set (scan_xs p0 p1 p2 (width r)). pixel_settled p0 p1 p2 y x r'"
    by simp_all
  from m have "width r' = width r" "height r' = height r"
    by (simp_all add: depth_mono_def)
  with s m show ?thesis by (simp add: triangle_settled_def)
qed

lemma triangle_settled_mono:
  assumes "triangle_settled p0 p1 p2 r" "depth_mono r r'"
  shows "triangle_settled p0 p1 p2 r'"
proof -
  from assms(2) have "width r' = width r" "height r' = height r"
    by (simp_all add: depth_mono_def)
  then show ?thesis
    using assms(1) pixel_settled_mono [OF _ assms(2)] unfolding triangle_settled_def by simp
qed

lemma rasterizeTriangle_noop:
  assumes "triangle_settled p0 p1 p2 r"
  shows "rasterizeTriangle p0 p1 p2 v0 v1 v2 fs u r = Inr r"
  unfolding rasterizeTriangle_scan
  using assms
  by (auto intro!: fold_fault_noop shade_pixel_noop simp: triangle_settled_def)

lemma render_triangle_cases:
  assumes "render_triangle vs vsh fsh u t s = Inr s'"
  obtains v0 v1 v2 where "shade_vertices vs vsh u t = Inr (v0, v1, v2)"
    and "rasterizeTriangle (screen_of (width s) (height s) v0) (screen_of (width s) (height s) v1)
           (screen_of (width s) (height s) v2) v0 v1 v2 fsh u s = Inr s'"
  using assms by (auto simp: render_triangle_def split: sum.splits)

lemma render_triangle_step:
  assumes "render_triangle vs vsh fsh u t s = Inr s'"
  shows "depth_mono s s' \<and> render_triangle vs vsh fsh u t s' = Inr s'"
proof -
  from assms obtain v0 v1 v2 where sv: "shade_vertices vs vsh u t = Inr (v0, v1, v2)"
    and r: "rasterizeTriangle (screen_of (width s) (height s) v0) (screen_of (width s) (height s) v1)
           (screen_of (width s) (height s) v2) v0 v1 v2 fsh u s = Inr s'"
    by (rule render_triangle_cases)
  from rasterizeTriangle_step [OF r] have m: "depth_mono s s'"
    and st: "triangle_settled (screen_of (width s) (height s) v0) (screen_of (width s) (height s) v1)
           (screen_of (width s) (height s) v2) s'" by simp_all
  from m have wh: "width s' = width s" "height s' = height s"
    by (simp_all add: depth_mono_def)
  have "rasterizeTriangle (screen_of (width s') (height s') v0) (screen_of (width s') (height s') v1)
           (screen_of (width s') (height s') v2) v0 v1 v2 fsh u s' = Inr s'"
    unfolding wh by (rule rasterizeTriangle_noop [OF st])
  then show ?thesis
    using m sv by (simp add: render_triangle_def)
qed

lemma render_triangle_fixed_mono:
  assumes "render_triangle vs vsh fsh u t s = Inr s" "depth_mono s s'"
  shows "render_triangle vs vsh fsh u t s' = Inr s'"
proof -
  from assms(1) obtain v0 v1 v2 where sv: "shade_vertices vs vsh u t = Inr (v0, v1, v2)"
    and r: "rasterizeTriangle (screen_of (width s) (height s) v0) (screen_of (width s) (height s) v1)
           (screen_of (width s) (height s) v2) v0 v1 v2 fsh u s = Inr s"
    by (rule render_triangle_cases)
  from rasterizeTriangle_step [OF r]
  have "triangle_settled (screen_of (width s) (height s) v0) (screen_of (width s) (height s) v1)
           (screen_of (width s) (height s) v2) s" by simp
  then have st: "triangle_settled (screen_of (width s) (height s) v0)
      (screen_of (width s) (height s) v1) (screen_of (width s) (height s) v2) s'"
    by (rule triangle_settled_mono [OF _ assms(2)])
  from assms(2) have wh: "width s' = width s" "height s' = height s"
    by (simp_all add: depth_mono_def)
  have "rasterizeTriangle (screen_of (width s') (height s') v0) (screen_of (width s') (height s') v1)
           (screen_of (width s') (height s') v2) v0 v1 v2 fsh u s' = Inr s'"
    unfolding wh by (rule rasterizeTriangle_noop [OF st])
  then show ?thesis
    using sv by (simp add: render_triangle_def)
qed

lemma render_step:
  assumes "render g vsh fsh u r = Inr r'"
  shows "depth_mono r r' \<and>
         (\<forall>t\<in>set (index_triples (indices g)). render_triangle (vertices g) vsh fsh u t r' = Inr r')"
  by (rule fold_fault_settles [where f = "render_triangle (vertices g) vsh fsh u"
        and settled = "\<lambda>t s. render_triangle (vertices g) vsh fsh u t s = Inr s"
        and below = depth_mono, OF _ _ _ _ assms [unfolded render_def]])
     (auto dest: render_triangle_step render_triangle_fixed_mono
           intro: depth_mono_refl depth_mono_trans)

lemma render_mono:
  "render g vsh fsh u r = Inr r' \<Longrightarrow> depth_mono r r'"
  by (simp add: render_step)

lemma render_fixed:
  assumes "render g vsh fsh u r = Inr r'"
  shows "render g vsh fsh u r' = Inr r'"
  unfolding render_def
  using render_step [OF assms] by (auto intro!: fold_fault_noop)

subsection \<open>Depth buffer: fragments and their minimum\<close>

lemma depth_min_comm: "depth_min a b = depth_min b a"
  by (cases a; cases b) (auto simp: depth_min_def)

lemma depth_min_assoc: "depth_min (depth_min a b) c = depth_min a (depth_min b c)"
  by (cases a; cases b; cases c) (auto simp: depth_min_def)

lemma depth_min_Infinity [simp]: "depth_min a Infinity = a" "depth_min Infinity a = a"
  by (cases a; simp add: depth_min_def)+

lemma depth_min_absorb: "depth_le a b \<Longrightarrow> depth_min a b = a"
  by (simp add: depth_min_def)

lemma foldr_depth_min: "foldr depth_min ds a = depth_min (min_depth ds) a"
  by (induction ds) (simp_all add: min_depth_def depth_min_assoc)

lemma min_depth_Cons: "min_depth (d # ds) = depth_min d (min_depth ds)"
  by (simp add: min_depth_def)

lemma length_depth_store [simp]: "length (depth_store ds f) = length ds"
  by (simp add: depth_store_def)

lemma length_foldl_depth_store [simp]: "length (foldl depth_store ds fs) = length ds"
  by (induction fs arbitrary: ds) simp_all

lemma accepted_min:
  "i < length ds \<Longrightarrow>
   foldl depth_store ds fs ! i = depth_min (ds ! i) (min_depth (depths_at (int i) (accepted ds fs)))"
proof (induction fs arbitrary: ds)
  case Nil
  then show ?case by (simp add: depths_at_def min_depth_def)
next
  case (Cons f fs)
  show ?case
  proof (cases "depth_less (snd f) (depth_at ds (fst f))")
    case False
    then show ?thesis using Cons by (simp add: depth_store_def)
  next
    case True
    let ?ds = "ds[nat (fst f) := Finite (snd f)]"
    from True have rng: "0 \<le> fst f" "fst f < int (length ds)"
      by (auto simp: depth_at_def split: if_splits)
    have st: "depth_store ds f = ?ds" using True by (simp add: depth_store_def)
    have len: "i < length ?ds" using Cons.prems by simp
    note IH = Cons.IH [OF len]
    show ?thesis
    proof (cases "fst f = int i")
      case eq: True
      then have le: "depth_le (Finite (snd f)) (ds ! i)"
        using True rng by (auto simp: depth_at_def intro: depth_less_Finite)
      have "depth_min (Finite (snd f)) (min_depth (depths_at (int i) (accepted ?ds fs))) =
            depth_min (ds ! i) (depth_min (Finite (snd f)) (min_depth (depths_at (int i) (accepted ?ds fs))))"
        using depth_min_absorb [OF le]
        by (simp add: depth_min_assoc [symmetric] depth_min_comm [of "ds ! i"])
      then show ?thesis
        using True eq IH Cons.prems by (simp add: st depths_at_def min_depth_Cons)
    next
      case ne: False
      then have "?ds ! i = ds ! i" using rng by (simp add: nat_eq_iff)
      then show ?thesis
        using True ne IH by (simp add: st depths_at_def)
    qed
  qed
qed


lemma fold_fault_trace:
  assumes step: "\<And>a s s'. I s \<Longrightarrow> f a s = Inr s' \<Longrightarrow> I s' \<and> D s' = foldl g (D s) (F a)"
      and init: "I s"
      and run: "fold_fault f as s = Inr s'"
  shows "I s' \<and> D s' = foldl g (D s) (concat (map F as))"
  using init run
proof (induction as arbitrary: s)
  case Nil
  then show ?case by simp
next
  case (Cons a as)
  from Cons.prems(2) obtain t where t: "f a s = Inr t" and rest: "fold_fault f as t = Inr s'"
    by (auto split: sum.splits)
  from step [OF Cons.prems(1) t] have "I t" and d: "D t = foldl g (D s) (F a)" by simp_all
  from Cons.IH [OF \<open>I t\<close> rest] show ?case by (simp add: d)
qed

lemma shade_pixel_trace:
  assumes "shade_pixel p0 p1 p2 v0 v1 v2 fs u y x s = Inr s'"
  shows "width s' = width s \<and> height s' = height s \<and>
         depthBuffer s' = foldl depth_store (depthBuffer s) (pixel_fragment p0 p1 p2 (width s) y x)"
  using assms unfolding shade_pixel_def pixel_fragment_def depth_store_def Let_def
  by (auto split: if_splits sum.splits)

lemma row_trace:
  assumes "fold_fault (shade_pixel p0 p1 p2 v0 v1 v2 fs u y) xs s = Inr s'"
  shows "(width s' = width s \<and> height s' = height s) \<and>
         depthBuffer s' = foldl depth_store (depthBuffer s)
           (concat (map (pixel_fragment p0 p1 p2 (width s) y) xs))"
proof (rule fold_fault_trace [where f = "shade_pixel p0 p1 p2 v0 v1 v2 fs u y"
      and I = "\<lambda>t. width t = width s \<and> height t = height s", OF _ _ assms])
  fix a t t'
  assume "width t = width s \<and> height t = height s"
    and "shade_pixel p0 p1 p2 v0 v1 v2 fs u y a t = Inr t'"
  then show "(width t' = width s \<and> height t' = height s) \<and>
        depthBuffer t' = foldl depth_store (depthBuffer t) (pixel_fragment p0 p1 p2 (width s) y a)"
    using shade_pixel_trace [of p0 p1 p2 v0 v1 v2 fs u y a t t'] by simp
qed simp

lemma rasterizeTriangle_trace:
  assumes "rasterizeTriangle p0 p1 p2 v0 v1 v2 fs u s = Inr s'"
  shows "(width s' = width s \<and> height s' = height s) \<and>
         depthBuffer s' = foldl depth_store (depthBuffer s)
           (triangle_fragments p0 p1 p2 (width s) (height s))"
  unfolding triangle_fragments_def
proof (rule fold_fault_trace [where
      f = "\<lambda>y. fold_fault (shade_pixel p0 p1 p2 v0 v1 v2 fs u y) (scan_xs p0 p1 p2 (width s))"
      and I = "\<lambda>t. width t = width s \<and> height t = height s"])
  fix a t t'
  assume "width t = width s \<and> height t = height s"
    and "fold_fault (shade_pixel p0 p1 p2 v0 v1 v2 fs u a) (scan_xs p0 p1 p2 (width s)) t = Inr t'"
  then show "(width t' = width s \<and> height t' = height s) \<and>
        depthBuffer t' = foldl depth_store (depthBuffer t)
          (concat (map (pixel_fragment p0 p1 p2 (width s) a) (scan_xs p0 p1 p2 (width s))))"
    using row_trace [of p0 p1 p2 v0 v1 v2 fs u a "scan_xs p0 p1 p2 (width s)" t t'] by simp
next
  show "width s = width s \<and> height s = height s" by simp
next
  show "fold_fault (\<lambda>y. fold_fault (shade_pixel p0 p1 p2 v0 v1 v2 fs u y) (scan_xs p0 p1 p2 (width s)))
     (scan_ys p0 p1 p2 (height s)) s = Inr s'"
    using assms by (simp add: rasterizeTriangle_scan)
qed

lemma render_triangle_trace:
  assumes "render_triangle vs vsh fsh u t s = Inr s'"
  shows "(width s' = width s \<and> height s' = height s) \<and>
         depthBuffer s' = foldl depth_store (depthBuffer s)
           (triangle_fragments_of vs vsh u (width s) (height s) t)"
proof -
  from assms obtain v0 v1 v2 where sv: "shade_vertices vs vsh u t = Inr (v0, v1, v2)"
    and r: "rasterizeTriangle (screen_of (width s) (height s) v0) (screen_of (width s) (height s) v1)
           (screen_of (width s) (height s) v2) v0 v1 v2 fsh u s = Inr s'"
    by (rule render_triangle_cases)
  from rasterizeTriangle_trace [OF r] show ?thesis
    by (simp add: triangle_fragments_of_def sv)
qed

lemma render_trace:
  assumes "render g vsh fsh u r = Inr r'"
  shows "(width r' = width r \<and> height r' = height r) \<and>
   depthBuffer r' = foldl depth_store (depthBuffer r)
     (render_fragments (vertices g) vsh u (width r) (height r) (indices g))"
  unfolding render_fragments_def
proof (rule fold_fault_trace [where f = "render_triangle (vertices g) vsh fsh u"
      and I = "\<lambda>t. width t = width r \<and> height t = height r"])
  fix a t t'
  assume "width t = width r \<and> height t = height r"
    and "render_triangle (vertices g) vsh fsh u a t = Inr t'"
  then show "(width t' = width r \<and> height t' = height r) \<and>
        depthBuffer t' = foldl depth_store (depthBuffer t)
          (triangle_fragments_of (vertices g) vsh u (width r) (height r) a)"
    using render_triangle_trace [of "vertices g" vsh fsh u a t t'] by simp
next
  show "width r = width r \<and> height r = height r" by simp
next
  show "fold_fault (render_triangle (vertices g) vsh fsh u) (index_triples (indices g)) r = Inr r'"
    using assms by (simp add: render_def)
qed

lemma render_all_trace:
  assumes "render_all calls r = Inr r'"
  shows "(width r' = width r \<and> height r' = height r) \<and>
   depthBuffer r' = foldl depth_store (depthBuffer r) (calls_fragments calls (width r) (height r))"
  unfolding calls_fragments_def
proof (rule fold_fault_trace [where f = "\<lambda>(g, vs, fs, u). render g vs fs u"
      and I = "\<lambda>t. width t = width r \<and> height t = height r"])
  fix a :: "('a, 'b) draw_call" and t t'
  assume "width t = width r \<and> height t = height r"
    and "(case a of (g, vs, fs, u) \<Rightarrow> render g vs fs u) t = Inr t'"
  then show "(width t' = width r \<and> height t' = height r) \<and>
        depthBuffer t' = foldl depth_store (depthBuffer t)
          (case a of (g, vs, fs, u) \<Rightarrow> render_fragments (vertices g) vs u (width r) (height r) (indices g))"
    using render_trace by (cases a) fastforce
next
  show "width r = width r \<and> height r = height r" by simp
next
  show "fold_fault (\<lambda>(g, vs, fs, u). render g vs fs u) calls r = Inr r'"
    using assms by (simp add: render_all_def)
qed

lemma render_all_mono:
  assumes "render_all calls r = Inr r'"
  shows "depth_mono r r'"
proof -
  have "depth_mono r r' \<and> (\<forall>a\<in>set calls. True)"
    by (rule fold_fault_settles [where f = "\<lambda>(g, vs, fs, u). render g vs fs u",
          OF _ _ depth_mono_refl depth_mono_trans assms [unfolded render_all_def]])
      (auto dest: render_mono)
  then show ?thesis by simp
qed

lemma fold_fault_append:
  "fold_fault f (as @ bs) s =
     (case fold_fault f as s of Inl e \<Rightarrow> Inl e | Inr t \<Rightarrow> fold_fault f bs t)"
  by (induction as arbitrary: s) (simp_all split: sum.splits)

lemma shade_pixel_writes:
  assumes "shade_pixel p0 p1 p2 v0 v1 v2 fs u y x s = Inr s'"
  shows "(let b = barycentric (of_int x) (of_int y) p0 p1 p2;
              z = pz p0 * bary_u b + pz p1 * bary_v b + pz p2 * bary_w b
          in depthBuffer s' = depthBuffer s \<or>
             (depth_less z (depth_at (depthBuffer s) (y * width s + x)) \<and>
              depthBuffer s' = (depthBuffer s)[nat (y * width s + x) := Finite z]))"
  using assms unfolding shade_pixel_def Let_def
  by (auto split: if_splits sum.splits)


lemma stored_depth_settles:
  "f \<in> set fs \<Longrightarrow> \<not> depth_less (snd f) (depth_at (foldl depth_store ds fs) (fst f))"
proof (induction fs arbitrary: ds)
  case Nil
  then show ?case by simp
next
  case (Cons g fs)
  have keep: "\<not> depth_less z (depth_at (foldl depth_store es gs) i)"
    if "\<not> depth_less z (depth_at es i)" for z i es gs
    using that
  proof (induction gs arbitrary: es)
    case Nil
    then show ?case by simp
  next
    case (Cons h gs)
    have "\<not> depth_less z (depth_at (depth_store es h) i)"
    proof (cases "depth_less (snd h) (depth_at es (fst h))")
      case False
      then show ?thesis using Cons.prems by (simp add: depth_store_def)
    next
      case True
      then have rng: "0 \<le> fst h" "fst h < int (length es)"
        by (auto simp: depth_at_def split: if_splits)
      show ?thesis
      proof (cases "i = fst h")
        case eq: True
        from True rng have "depth_less (snd h) (Some (es ! nat i))"
          by (simp add: depth_at_def eq)
        moreover from Cons.prems rng have "\<not> depth_less z (Some (es ! nat i))"
          by (simp add: depth_at_def eq)
        ultimately have "\<not> z < snd h"
          by (cases "es ! nat i") auto
        then show ?thesis
          using True rng by (simp add: depth_store_def depth_at_def eq)
      next
        case False
        then have "nat (fst h) \<noteq> nat i \<or> i < 0" using rng by auto
        then show ?thesis
          using True Cons.prems by (auto simp: depth_store_def depth_at_def)
      qed
    qed
    then show ?case using Cons.IH by simp
  qed
  show ?case
  proof (cases "f = g")
    case True
    have "\<not> depth_less (snd g) (depth_at (depth_store ds g) (fst g))"
      by (auto simp: depth_store_def depth_at_def)
    then show ?thesis using keep True by simp
  next
    case False
    then show ?thesis using Cons by simp
  qed
qed

text \<open>
  Within one triangle the cell indices of the fragments increase strictly in scan order, so
  on a cleared buffer every fragment of a single triangle is accepted and stays.
\<close>

lemma pixel_fragment_cases:
  "pixel_fragment p0 p1 p2 wd y x = [] \<or>
   (\<exists>z. pixel_fragment p0 p1 p2 wd y x = [(y * wd + x, z)])"
  by (simp add: pixel_fragment_def Let_def)

lemma row_fragments_sorted:
  assumes "sorted_wrt (<) xs"
  shows "sorted_wrt (<) (map fst (concat (map (pixel_fragment p0 p1 p2 wd y) xs))) \<and>
         (\<forall>f \<in> set (concat (map (pixel_fragment p0 p1 p2 wd y) xs)).
            \<exists>x \<in> set xs. fst f = y * wd + x)"
  using assms
proof (induction xs)
  case Nil
  then show ?case by simp
next
  case (Cons x xs)
  then have IH: "sorted_wrt (<) (map fst (concat (map (pixel_fragment p0 p1 p2 wd y) xs)))"
    "\<forall>f \<in> set (concat (map (pixel_fragment p0 p1 p2 wd y) xs)). \<exists>x' \<in> set xs. fst f = y * wd + x'"
    and lt: "\<forall>x' \<in> set xs. x < x'"
    by auto
  from pixel_fragment_cases [of p0 p1 p2 wd y x] show ?case
  proof
    assume "pixel_fragment p0 p1 p2 wd y x = []"
    then show ?thesis using IH by auto
  next
    assume "\<exists>z. pixel_fragment p0 p1 p2 wd y x = [(y * wd + x, z)]"
    then obtain z where z: "pixel_fragment p0 p1 p2 wd y x = [(y * wd + x, z)]" by blast
    have "\<forall>f \<in> set (concat (map (pixel_fragment p0 p1 p2 wd y) xs)). y * wd + x < fst f"
      using IH(2) lt by fastforce
    then show ?thesis using IH z by auto
  qed
qed

lemma triangle_fragments_sorted:
  assumes "sorted_wrt (<) ys" "sorted_wrt (<) xs" "\<forall>x \<in> set xs. 0 \<le> x \<and> x < wd"
  shows "sorted_wrt (<) (map fst (concat (map (\<lambda>y. concat (map (pixel_fragment p0 p1 p2 wd y) xs)) ys))) \<and>
         (\<forall>f \<in> set (concat (map (\<lambda>y. concat (map (pixel_fragment p0 p1 p2 wd y) xs)) ys)).
            \<exists>y \<in> set ys. \<exists>x \<in> set xs. fst f = y * wd + x)"
  using assms(1)
proof (induction ys)
  case Nil
  then show ?case by simp
next
  case (Cons y ys)
  let ?row = "\<lambda>y. concat (map (pixel_fragment p0 p1 p2 wd y) xs)"
  from Cons have IH: "sorted_wrt (<) (map fst (concat (map ?row ys)))"
    "\<forall>f \<in> set (concat (map ?row ys)). \<exists>y' \<in> set ys. \<exists>x \<in> set xs. fst f = y' * wd + x"
    and lt: "\<forall>y' \<in> set ys. y < y'"
    by auto
  note row = row_fragments_sorted [OF assms(2), of p0 p1 p2 wd y]
  have cross: "fst f < fst g" if "f \<in> set (?row y)" "g \<in> set (concat (map ?row ys))" for f g
  proof -
    from row that(1) obtain x where x: "x \<in> set xs" "fst f = y * wd + x" by blast
    from IH(2) that(2) obtain y' x' where y': "y' \<in> set ys" "x' \<in> set xs" "fst g = y' * wd + x'"
      by blast
    have "y + 1 \<le> y'" using lt y'(1) by auto
    moreover have "0 \<le> wd" using assms(3) x(1) by force
    ultimately have "(y + 1) * wd \<le> y' * wd" by (rule mult_right_mono)
    moreover have "x < wd" "0 \<le> x'" using assms(3) x(1) y'(2) by auto
    ultimately show ?thesis using x(2) y'(3) by (simp add: algebra_simps)
  qed
  have c: "\<forall>a \<in> set (map fst (?row y)). \<forall>b \<in> set (map fst (concat (map ?row ys))). a < b"
  proof (intro ballI)
    fix a b
    assume "a \<in> set (map fst (?row y))" "b \<in> set (map fst (concat (map ?row ys)))"
    then obtain f g where "f \<in> set (?row y)" "a = fst f" "g \<in> set (concat (map ?row ys))"
      "b = fst g"
      unfolding set_map by blast
    then show "a < b" using cross by simp
  qed
  have "sorted_wrt (<) (map fst (?row y) @ map fst (concat (map ?row ys)))"
    unfolding sorted_wrt_append using row IH(1) c by blast
  then have "sorted_wrt (<) (map fst (?row y @ concat (map ?row ys)))"
    by (simp only: map_append)
  moreover have "\<forall>f \<in> set (?row y @ concat (map ?row ys)).
      \<exists>y' \<in> set (y # ys). \<exists>x \<in> set xs. fst f = y' * wd + x"
    using row IH(2) by auto
  ultimately show ?case by simp
qed

lemma depth_store_elsewhere:
  assumes "\<forall>g \<in> set fs. fst g \<noteq> i"
  shows "depth_at (foldl depth_store ds fs) i = depth_at ds i"
  using assms
proof (induction fs arbitrary: ds)
  case Nil
  then show ?case by simp
next
  case (Cons g fs)
  have "depth_at (depth_store ds g) i = depth_at ds i"
    using Cons.prems by (auto simp: depth_store_def depth_at_def nat_eq_iff split: if_splits)
  then show ?case using Cons by simp
qed

lemma sorted_fragments_stored:
  assumes "sorted_wrt (<) (map fst fs)"
    and "\<forall>f \<in> set fs. depth_at ds (fst f) = Some Infinity"
    and "f \<in> set fs"
  shows "depth_at (foldl depth_store ds fs) (fst f) = Some (Finite (snd f))"
  using assms
proof (induction fs arbitrary: ds)
  case Nil
  then show ?case by simp
next
  case (Cons g fs)
  let ?ds = "depth_store ds g"
  have g: "depth_at ds (fst g) = Some Infinity" using Cons.prems(2) by simp
  then have st: "?ds = ds[nat (fst g) := Finite (snd g)]" by (simp add: depth_store_def)
  from g have rng: "0 \<le> fst g" "fst g < int (length ds)"
    by (auto simp: depth_at_def split: if_splits)
  have later: "\<forall>h \<in> set fs. fst g < fst h" using Cons.prems(1) by auto
  show ?case
  proof (cases "f = g")
    case True
    have "depth_at (foldl depth_store ?ds fs) (fst g) = depth_at ?ds (fst g)"
      using later by (intro depth_store_elsewhere) auto
    also have "\<dots> = Some (Finite (snd g))"
      using rng by (simp add: st depth_at_def)
    finally show ?thesis using True by simp
  next
    case False
    then have f: "f \<in> set fs" using Cons.prems(3) by simp
    have "\<forall>h \<in> set fs. depth_at ?ds (fst h) = Some Infinity"
    proof
      fix h assume h: "h \<in> set fs"
      then have "fst g < fst h" using later by simp
      then have "nat (fst h) \<noteq> nat (fst g)" using rng by simp
      moreover have "depth_at ds (fst h) = Some Infinity" using Cons.prems(2) h by simp
      ultimately show "depth_at ?ds (fst h) = Some Infinity"
        by (auto simp: st depth_at_def split: if_splits)
    qed
    moreover have "sorted_wrt (<) (map fst fs)" using Cons.prems(1) by simp
    ultimately show ?thesis using Cons.IH f by simp
  qed
qed

lemma scan_sorted:
  "sorted_wrt (<) (scan_xs p0 p1 p2 wd)" "\<forall>x \<in> set (scan_xs p0 p1 p2 wd). 0 \<le> x \<and> x < wd"
  "sorted_wrt (<) (scan_ys p0 p1 p2 ht)" "\<forall>y \<in> set (scan_ys p0 p1 p2 ht). 0 \<le> y \<and> y < ht"
  by (auto simp: scan_xs_def scan_ys_def)

lemma triangle_fragments_stored:
  assumes "0 < wd" "length ds = nat (wd * ht)" "\<forall>d \<in> set ds. d = Infinity"
    and "f \<in> set (triangle_fragments p0 p1 p2 wd ht)"
  shows "depth_at (foldl depth_store ds (triangle_fragments p0 p1 p2 wd ht)) (fst f) =
         Some (Finite (snd f))"
proof (rule sorted_fragments_stored [OF _ _ assms(4)])
  note s = triangle_fragments_sorted [OF scan_sorted(3) [of p0 p1 p2 ht]
      scan_sorted(1) [of p0 p1 p2 wd] scan_sorted(2) [of p0 p1 p2 wd], of p0 p1 p2]
  show "sorted_wrt (<) (map fst (triangle_fragments p0 p1 p2 wd ht))"
    using s by (simp add: triangle_fragments_def)
  show "\<forall>f \<in> set (triangle_fragments p0 p1 p2 wd ht). depth_at ds (fst f) = Some Infinity"
  proof
    fix g assume "g \<in> set (triangle_fragments p0 p1 p2 wd ht)"
    then have "\<exists>y \<in> set (scan_ys p0 p1 p2 ht). \<exists>x \<in> set (scan_xs p0 p1 p2 wd). fst g = y * wd + x"
      using s [THEN conjunct2] unfolding triangle_fragments_def by blast
    then obtain y x where y: "y \<in> set (scan_ys p0 p1 p2 ht)" and x: "x \<in> set (scan_xs p0 p1 p2 wd)"
      and i: "fst g = y * wd + x"
      by blast
    have b: "0 \<le> x" "x < wd" "0 \<le> y" "y < ht" using scan_sorted(2,4) x y by auto
    then have "y + 1 \<le> ht" by simp
    then have "(y + 1) * wd \<le> ht * wd" using assms(1) by (intro mult_right_mono) auto
    then have hi: "y * wd + x < wd * ht" using b by (simp add: algebra_simps)
    have lo: "0 \<le> y * wd + x" using b assms(1) by simp
    have "nat (y * wd + x) < length ds" using hi lo assms(2) by simp
    then have "ds ! nat (y * wd + x) = Infinity" using assms(3) by simp
    then show "depth_at ds (fst g) = Some Infinity"
      using hi lo assms(2) by (simp add: depth_at_def i)
  qed
qed

lemma single_triangle_equal_depth:
  assumes "0 < width r" and "length (depthBuffer r) = nat (width r * height r)"
    and "indices geometry = [i0, i1, i2]"
    and "render geometry vertShader fragShader uniforms (clear r) = Inr r1"
    and "f \<in> set (render_fragments (vertices geometry) vertShader uniforms (width r) (height r)
                    (indices geometry))"
  shows "depth_at (depthBuffer r1) (fst f) = Some (Finite (snd f))"
proof -
  have wh: "width (clear r) = width r" "height (clear r) = height r"
    and ds: "depthBuffer (clear r) = replicate (nat (width r * height r)) Infinity"
    by (simp_all add: clear_def assms(2))
  have d: "depthBuffer r1 = foldl depth_store (replicate (nat (width r * height r)) Infinity)
      (render_fragments (vertices geometry) vertShader uniforms (width r) (height r)
         (indices geometry))"
    using render_trace [OF assms(4)] by (simp add: wh ds)
  show ?thesis
    using assms(5) unfolding d assms(3)
    by (auto simp: render_fragments_def triangle_fragments_of_def
          triangle_fragments_stored [OF assms(1)] split: sum.splits)
qed

subsection \<open>The two renderers\<close>


lemma interpolate_normal:
  "interpolateVarying (normal_output c0 n0) (normal_output c1 n1) (normal_output c2 n2) b =
     Inr (normal_output (Vec4 0 0 0 1)
       (Vec3 (vec3_x n0 * bary_u b + vec3_x n1 * bary_v b + vec3_x n2 * bary_w b)
             (vec3_y n0 * bary_u b + vec3_y n1 * bary_v b + vec3_y n2 * bary_w b)
             (vec3_z n0 * bary_u b + vec3_z n1 * bary_v b + vec3_z n2 * bary_w b)))"
  by (simp add: interpolateVarying_def interpolate_key_def normal_output_def)

















subsection \<open>The fixture, evaluated\<close>

lemma frame_size: "width (frame ps ds) = 2" "height (frame ps ds) = 2"
  "depthBuffer (frame ps ds) = ds"
  by (simp_all add: frame_def)

lemma fixture_cleared:
  "clear (Renderer_new 2 2) = frame [0, 0, 0, 0] [Infinity, Infinity, Infinity, Infinity]"
  by (simp add: clear_def Renderer_new_def image_create_def image_fill_def numeral_eq_Suc frame_def)

lemma fixture_shade:
  "shade_vertices fixture_vertices fixture_vertShader () (Some 0, Some 1, Some 2) =
     Inr (normal_output (Vec4 (- 1) 1 0 1) (Vec3 0 0 1),
          normal_output (Vec4 1 1 (1 / 2) 1) (Vec3 0 1 0),
          normal_output (Vec4 (- 1) (- 1) 1 1) (Vec3 1 0 0))"
  by (simp add: shade_vertices_def vertex_of_def vertex_at_def fixture_vertShader_def
      fixture_vertices_def normal_output_def)

lemma fixture_points:
  "screen_of 2 2 (normal_output (Vec4 (- 1) 1 0 1) n0) = ScreenPoint 0 0 0"
  "screen_of 2 2 (normal_output (Vec4 1 1 (1 / 2) 1) n1) = ScreenPoint 2 0 (1 / 2)"
  "screen_of 2 2 (normal_output (Vec4 (- 1) (- 1) 1 1) n2) = ScreenPoint 0 2 1"
  by (simp_all add: screen_of_def normal_output_def toScreen_def perspectiveDivide_def)

lemma fixture_scan:
  "scan_xs (ScreenPoint 0 0 0) (ScreenPoint 2 0 (1 / 2)) (ScreenPoint 0 2 1) 2 = [0, 1]"
  "scan_ys (ScreenPoint 0 0 0) (ScreenPoint 2 0 (1 / 2)) (ScreenPoint 0 2 1) 2 = [0, 1]"
  by (simp_all add: scan_xs_def scan_ys_def upto_rec1)

lemma fixture_row0:
  "fold_fault (shade_pixel (ScreenPoint 0 0 0) (ScreenPoint 2 0 (1 / 2)) (ScreenPoint 0 2 1)
       (normal_output (Vec4 (- 1) 1 0 1) (Vec3 0 0 1))
       (normal_output (Vec4 1 1 (1 / 2) 1) (Vec3 0 1 0))
       (normal_output (Vec4 (- 1) (- 1) 1 1) (Vec3 1 0 0)) fixture_fragShader () 0) [0, 1]
     (frame [0, 0, 0, 0] [Infinity, Infinity, Infinity, Infinity]) =
   Inr (frame [15, 9, 0, 0] [Finite 0, Finite (1 / 4), Infinity, Infinity])"
  by (simp add: shade_pixel_def barycentric_def Let_def depth_at_def interpolateVarying_def
      interpolate_key_def intensity_def image_setPixel_def frame_def fixture_fragShader_def normal_output_def)

lemma fixture_row1:
  "fold_fault (shade_pixel (ScreenPoint 0 0 0) (ScreenPoint 2 0 (1 / 2)) (ScreenPoint 0 2 1)
       (normal_output (Vec4 (- 1) 1 0 1) (Vec3 0 0 1))
       (normal_output (Vec4 1 1 (1 / 2) 1) (Vec3 0 1 0))
       (normal_output (Vec4 (- 1) (- 1) 1 1) (Vec3 1 0 0)) fixture_fragShader () 1) [0, 1]
     (frame [15, 9, 0, 0] [Finite 0, Finite (1 / 4), Infinity, Infinity]) =
   Inr fixture_frame"
  by (simp add: shade_pixel_def barycentric_def Let_def depth_at_def interpolateVarying_def
      interpolate_key_def intensity_def image_setPixel_def frame_def fixture_fragShader_def normal_output_def
      fixture_frame_def)

lemma fold_fault_Cons_Inr: "f a s = Inr t \<Longrightarrow> fold_fault f (a # as) s = fold_fault f as t"
  by simp

lemma fixture_rasterize:
  "rasterizeTriangle (ScreenPoint 0 0 0) (ScreenPoint 2 0 (1 / 2)) (ScreenPoint 0 2 1)
       (normal_output (Vec4 (- 1) 1 0 1) (Vec3 0 0 1))
       (normal_output (Vec4 1 1 (1 / 2) 1) (Vec3 0 1 0))
       (normal_output (Vec4 (- 1) (- 1) 1 1) (Vec3 1 0 0)) fixture_fragShader ()
     (frame [0, 0, 0, 0] [Infinity, Infinity, Infinity, Infinity]) =
   Inr fixture_frame"
  unfolding rasterizeTriangle_scan frame_size fixture_scan
  by (simp only: fold_fault.simps(1)
      fold_fault_Cons_Inr [where f = "\<lambda>y. fold_fault (shade_pixel (ScreenPoint 0 0 0)
        (ScreenPoint 2 0 (1 / 2)) (ScreenPoint 0 2 1)
        (normal_output (Vec4 (- 1) 1 0 1) (Vec3 0 0 1))
        (normal_output (Vec4 1 1 (1 / 2) 1) (Vec3 0 1 0))
        (normal_output (Vec4 (- 1) (- 1) 1 1) (Vec3 1 0 0)) fixture_fragShader () y) [0, 1]",
        OF fixture_row0]
      fold_fault_Cons_Inr [where f = "\<lambda>y. fold_fault (shade_pixel (ScreenPoint 0 0 0)
        (ScreenPoint 2 0 (1 / 2)) (ScreenPoint 0 2 1)
        (normal_output (Vec4 (- 1) 1 0 1) (Vec3 0 0 1))
        (normal_output (Vec4 1 1 (1 / 2) 1) (Vec3 0 1 0))
        (normal_output (Vec4 (- 1) (- 1) 1 1) (Vec3 1 0 0)) fixture_fragShader () y) [0, 1]",
        OF fixture_row1])

lemma fixture_render:
  "render fixture_geometry fixture_vertShader fixture_fragShader () (clear (Renderer_new 2 2)) =
   Inr fixture_frame"
  by (simp add: render_def render_triangle_def fixture_geometry_def fixture_cleared fixture_shade
      frame_size fixture_points fixture_rasterize)

lemma fixture_fragments:
  "render_fragments (vertices fixture_geometry) fixture_vertShader () 2 2 (indices fixture_geometry) =
     [(0, 0), (1, 1 / 4), (2, 1 / 2), (3, 3 / 4)]"
proof -
  have p: "pixel_fragment (ScreenPoint 0 0 0) (ScreenPoint 2 0 (1 / 2)) (ScreenPoint 0 2 1) 2 0 0 = [(0, 0)]"
    "pixel_fragment (ScreenPoint 0 0 0) (ScreenPoint 2 0 (1 / 2)) (ScreenPoint 0 2 1) 2 0 1 = [(1, 1 / 4)]"
    "pixel_fragment (ScreenPoint 0 0 0) (ScreenPoint 2 0 (1 / 2)) (ScreenPoint 0 2 1) 2 1 0 = [(2, 1 / 2)]"
    "pixel_fragment (ScreenPoint 0 0 0) (ScreenPoint 2 0 (1 / 2)) (ScreenPoint 0 2 1) 2 1 1 = [(3, 3 / 4)]"
    by (simp_all add: pixel_fragment_def barycentric_def Let_def)
  show ?thesis
    by (simp add: render_fragments_def triangle_fragments_of_def fixture_geometry_def
        fixture_shade fixture_points triangle_fragments_def fixture_scan p)
qed

lemma overlap_shade:
  "shade_vertices overlap_vertices fixture_vertShader () (Some 0, Some 1, Some 2) =
     Inr (normal_output (Vec4 (- 1) 1 0 1) (Vec3 0 0 1),
          normal_output (Vec4 1 1 (1 / 2) 1) (Vec3 0 1 0),
          normal_output (Vec4 (- 1) (- 1) 1 1) (Vec3 1 0 0))"
  "shade_vertices overlap_vertices fixture_vertShader () (Some 3, Some 4, Some 5) =
     Inr (normal_output (Vec4 (- 1) 1 (- 1) 1) (Vec3 0 0 1),
          normal_output (Vec4 1 1 (- 1) 1) (Vec3 0 0 1),
          normal_output (Vec4 (- 1) (- 1) (- 1) 1) (Vec3 0 0 1))"
  by (simp_all add: shade_vertices_def vertex_of_def vertex_at_def fixture_vertShader_def
      overlap_vertices_def fixture_vertices_def normal_output_def)

lemma overlap_points:
  "screen_of 2 2 (normal_output (Vec4 (- 1) 1 (- 1) 1) n0) = ScreenPoint 0 0 (- 1)"
  "screen_of 2 2 (normal_output (Vec4 1 1 (- 1) 1) n1) = ScreenPoint 2 0 (- 1)"
  "screen_of 2 2 (normal_output (Vec4 (- 1) (- 1) (- 1) 1) n2) = ScreenPoint 0 2 (- 1)"
  by (simp_all add: screen_of_def normal_output_def toScreen_def perspectiveDivide_def)

lemma overlap_scan:
  "scan_xs (ScreenPoint 0 0 (- 1)) (ScreenPoint 2 0 (- 1)) (ScreenPoint 0 2 (- 1)) 2 = [0, 1]"
  "scan_ys (ScreenPoint 0 0 (- 1)) (ScreenPoint 2 0 (- 1)) (ScreenPoint 0 2 (- 1)) 2 = [0, 1]"
  by (simp_all add: scan_xs_def scan_ys_def upto_rec1)

lemma overlap_row0:
  "fold_fault (shade_pixel (ScreenPoint 0 0 (- 1)) (ScreenPoint 2 0 (- 1)) (ScreenPoint 0 2 (- 1))
       (normal_output (Vec4 (- 1) 1 (- 1) 1) (Vec3 0 0 1))
       (normal_output (Vec4 1 1 (- 1) 1) (Vec3 0 0 1))
       (normal_output (Vec4 (- 1) (- 1) (- 1) 1) (Vec3 0 0 1)) fixture_fragShader () 0) [0, 1]
     fixture_frame =
   Inr (frame [15, 15, 7, 1] [Finite (- 1), Finite (- 1), Finite (1 / 2), Finite (3 / 4)])"
  by (simp add: shade_pixel_def barycentric_def Let_def depth_at_def interpolateVarying_def
      interpolate_key_def intensity_def image_setPixel_def frame_def fixture_fragShader_def
      normal_output_def fixture_frame_def)

lemma overlap_row1:
  "fold_fault (shade_pixel (ScreenPoint 0 0 (- 1)) (ScreenPoint 2 0 (- 1)) (ScreenPoint 0 2 (- 1))
       (normal_output (Vec4 (- 1) 1 (- 1) 1) (Vec3 0 0 1))
       (normal_output (Vec4 1 1 (- 1) 1) (Vec3 0 0 1))
       (normal_output (Vec4 (- 1) (- 1) (- 1) 1) (Vec3 0 0 1)) fixture_fragShader () 1) [0, 1]
     (frame [15, 15, 7, 1] [Finite (- 1), Finite (- 1), Finite (1 / 2), Finite (3 / 4)]) =
   Inr overlap_frame"
  by (simp add: shade_pixel_def barycentric_def Let_def depth_at_def interpolateVarying_def
      interpolate_key_def intensity_def image_setPixel_def frame_def fixture_fragShader_def
      normal_output_def overlap_frame_def)

lemma overlap_rasterize:
  "rasterizeTriangle (ScreenPoint 0 0 (- 1)) (ScreenPoint 2 0 (- 1)) (ScreenPoint 0 2 (- 1))
       (normal_output (Vec4 (- 1) 1 (- 1) 1) (Vec3 0 0 1))
       (normal_output (Vec4 1 1 (- 1) 1) (Vec3 0 0 1))
       (normal_output (Vec4 (- 1) (- 1) (- 1) 1) (Vec3 0 0 1)) fixture_fragShader ()
     fixture_frame =
   Inr overlap_frame"
proof -
  have wh: "width fixture_frame = 2" "height fixture_frame = 2"
    by (simp_all add: fixture_frame_def frame_size)
  show ?thesis
    unfolding rasterizeTriangle_scan wh overlap_scan
    by (simp only: fold_fault.simps(1)
      fold_fault_Cons_Inr [where f = "\<lambda>y. fold_fault (shade_pixel (ScreenPoint 0 0 (- 1))
        (ScreenPoint 2 0 (- 1)) (ScreenPoint 0 2 (- 1))
        (normal_output (Vec4 (- 1) 1 (- 1) 1) (Vec3 0 0 1))
        (normal_output (Vec4 1 1 (- 1) 1) (Vec3 0 0 1))
        (normal_output (Vec4 (- 1) (- 1) (- 1) 1) (Vec3 0 0 1)) fixture_fragShader () y) [0, 1]",
        OF overlap_row0]
      fold_fault_Cons_Inr [where f = "\<lambda>y. fold_fault (shade_pixel (ScreenPoint 0 0 (- 1))
        (ScreenPoint 2 0 (- 1)) (ScreenPoint 0 2 (- 1))
        (normal_output (Vec4 (- 1) 1 (- 1) 1) (Vec3 0 0 1))
        (normal_output (Vec4 1 1 (- 1) 1) (Vec3 0 0 1))
        (normal_output (Vec4 (- 1) (- 1) (- 1) 1) (Vec3 0 0 1)) fixture_fragShader () y) [0, 1]",
        OF overlap_row1])
qed

lemma overlap_render:
  "render overlap_geometry fixture_vertShader fixture_fragShader () (clear (Renderer_new 2 2)) =
   Inr overlap_frame"
proof -
  have wh: "width fixture_frame = 2" "height fixture_frame = 2"
    by (simp_all add: fixture_frame_def frame_size)
  show ?thesis
    by (simp add: render_def render_triangle_def overlap_geometry_def fixture_cleared
        overlap_shade frame_size fixture_points fixture_rasterize wh overlap_points
        overlap_rasterize)
qed



lemma fixture_pixel:
  "shade_pixel (ScreenPoint 0 0 0) (ScreenPoint 2 0 (1 / 2)) (ScreenPoint 0 2 1)
       (normal_output (Vec4 (- 1) 1 0 1) (Vec3 0 0 1))
       (normal_output (Vec4 1 1 (1 / 2) 1) (Vec3 0 1 0))
       (normal_output (Vec4 (- 1) (- 1) 1 1) (Vec3 1 0 0)) fixture_fragShader () 1 1
     (frame [15, 9, 7, 0] [Finite 0, Finite (1 / 4), Finite (1 / 2), Infinity]) =
   Inr fixture_frame"
  by (simp add: shade_pixel_def barycentric_def Let_def depth_at_def interpolateVarying_def
      interpolate_key_def intensity_def image_setPixel_def frame_def fixture_fragShader_def
      normal_output_def fixture_frame_def)

subsection \<open>The claims about the renderer\<close>

text \<open>
  C6. For every real value the fragment shader returns, the value handed to \<^verbatim>\<open>setPixel\<close>
  (floor, then clamp) is the value clamped to [0, 15] and then truncated, and it is an
  integer from 0 to 15. At an accepted pixel (covered, depth test passed, varyings
  interpolated) the loop body does not stop and the framebuffer becomes the old one with
  this value set at the pixel: no returned value is rejected.
\<close>

theorem C6_intensity_clamped:
  "intensity color = spec_clamp_truncate color \<and> 0 \<le> intensity color \<and> intensity color \<le> 15 \<and>
   (let b = barycentric (of_int x) (of_int y) p0 p1 p2;
        z = pz p0 * bary_u b + pz p1 * bary_v b + pz p2 * bary_w b
    in bary_u b \<ge> 0 \<and> bary_v b \<ge> 0 \<and> bary_w b \<ge> 0 \<and>
       depth_less z (depth_at (depthBuffer r) (y * width r + x)) \<and>
       interpolateVarying v0 v1 v2 b = Inr varying \<longrightarrow>
       (\<exists>r'. shade_pixel p0 p1 p2 v0 v1 v2 fragShader uniforms y x r = Inr r' \<and>
             buffer r' = image_setPixel (buffer r) x y
                           (spec_clamp_truncate (fragShader varying uniforms))))"
proof -
  have "0 \<le> intensity color \<and> intensity color \<le> 15"
    by (simp add: intensity_def)
  then show ?thesis
    by (simp add: intensity_spec [symmetric] shade_pixel_def Let_def)
qed

theorem C6_intensity_clamped_witness:
  "interpolateVarying (normal_output (Vec4 (- 1) 1 0 1) (Vec3 0 0 1))
       (normal_output (Vec4 1 1 (1 / 2) 1) (Vec3 0 1 0))
       (normal_output (Vec4 (- 1) (- 1) 1 1) (Vec3 1 0 0)) (Weights 0 (1 / 2) (1 / 2)) =
     Inr (normal_output (Vec4 0 0 0 1) (Vec3 (1 / 2) (1 / 2) 0)) \<and>
   fixture_fragShader (normal_output (Vec4 0 0 0 1) (Vec3 (1 / 2) (1 / 2) 0)) () = 3 / 2 \<and>
   spec_clamp_truncate (3 / 2) = 1 \<and>
   (\<exists>r'. shade_pixel (ScreenPoint 0 0 0) (ScreenPoint 2 0 (1 / 2)) (ScreenPoint 0 2 1)
       (normal_output (Vec4 (- 1) 1 0 1) (Vec3 0 0 1))
       (normal_output (Vec4 1 1 (1 / 2) 1) (Vec3 0 1 0))
       (normal_output (Vec4 (- 1) (- 1) 1 1) (Vec3 1 0 0)) fixture_fragShader () 1 1
       (frame [15, 9, 7, 0] [Finite 0, Finite (1 / 4), Finite (1 / 2), Infinity]) = Inr r' \<and>
     buffer r' = image_setPixel \<lparr>img_width = 2, img_height = 2, pixels = [15, 9, 7, 0]\<rparr> 1 1 1)"
proof -
  have b: "barycentric 1 1 (ScreenPoint 0 0 0) (ScreenPoint 2 0 (1 / 2))
      (ScreenPoint 0 2 1) = Weights 0 (1 / 2) (1 / 2)"
    by (simp add: barycentric_def Let_def)
  have i: "interpolateVarying (normal_output (Vec4 (- 1) 1 0 1) (Vec3 0 0 1))
       (normal_output (Vec4 1 1 (1 / 2) 1) (Vec3 0 1 0))
       (normal_output (Vec4 (- 1) (- 1) 1 1) (Vec3 1 0 0)) (Weights 0 (1 / 2) (1 / 2)) =
     Inr (normal_output (Vec4 0 0 0 1) (Vec3 (1 / 2) (1 / 2) 0))"
    by (simp add: interpolate_normal)
  have f: "fixture_fragShader (normal_output (Vec4 0 0 0 1) (Vec3 (1 / 2) (1 / 2) 0)) () = 3 / 2"
    by (simp add: fixture_fragShader_def normal_output_def)
  have s: "spec_clamp_truncate (3 / 2) = 1"
    by (simp add: spec_clamp_truncate_def truncate_real_def)
  note t = C6_intensity_clamped [of _ 1 1 "ScreenPoint 0 0 0" "ScreenPoint 2 0 (1 / 2)"
      "ScreenPoint 0 2 1" "frame [15, 9, 7, 0] [Finite 0, Finite (1 / 4), Finite (1 / 2), Infinity]"
      "normal_output (Vec4 (- 1) 1 0 1) (Vec3 0 0 1)"
      "normal_output (Vec4 1 1 (1 / 2) 1) (Vec3 0 1 0)"
      "normal_output (Vec4 (- 1) (- 1) 1 1) (Vec3 1 0 0)"
      "normal_output (Vec4 0 0 0 1) (Vec3 (1 / 2) (1 / 2) 0)" fixture_fragShader "()",
      THEN conjunct2, THEN conjunct2, THEN conjunct2]
  have "\<exists>r'. shade_pixel (ScreenPoint 0 0 0) (ScreenPoint 2 0 (1 / 2)) (ScreenPoint 0 2 1)
       (normal_output (Vec4 (- 1) 1 0 1) (Vec3 0 0 1))
       (normal_output (Vec4 1 1 (1 / 2) 1) (Vec3 0 1 0))
       (normal_output (Vec4 (- 1) (- 1) 1 1) (Vec3 1 0 0)) fixture_fragShader () 1 1
       (frame [15, 9, 7, 0] [Finite 0, Finite (1 / 4), Finite (1 / 2), Infinity]) = Inr r' \<and>
     buffer r' = image_setPixel \<lparr>img_width = 2, img_height = 2, pixels = [15, 9, 7, 0]\<rparr> 1 1 1"
    using t by (simp add: b i f s Let_def frame_def depth_at_def)
  with i f s show ?thesis by blast
qed

text \<open>
  C1 as stated fails in its reason: with more than one triangle the depth of a covered
  pixel in the second pass need not be equal to the stored one. Here the first triangle
  covers pixel (0, 0) with depth 0 while the cell holds -1, the depth of the second
  triangle.
\<close>

theorem C1_depth_test_idempotent_counterexample:
  "render overlap_geometry fixture_vertShader fixture_fragShader () (clear (Renderer_new 2 2)) =
     Inr overlap_frame \<and>
   0 \<le> bary_u (barycentric 0 0 (ScreenPoint 0 0 0) (ScreenPoint 2 0 (1 / 2)) (ScreenPoint 0 2 1)) \<and>
   0 \<le> bary_v (barycentric 0 0 (ScreenPoint 0 0 0) (ScreenPoint 2 0 (1 / 2)) (ScreenPoint 0 2 1)) \<and>
   0 \<le> bary_w (barycentric 0 0 (ScreenPoint 0 0 0) (ScreenPoint 2 0 (1 / 2)) (ScreenPoint 0 2 1)) \<and>
   (0, 0) \<in> set (render_fragments (vertices overlap_geometry) fixture_vertShader () 2 2
                   (indices overlap_geometry)) \<and>
   depth_at (depthBuffer overlap_frame) 0 = Some (Finite (- 1)) \<and>
   depth_at (depthBuffer overlap_frame) 0 \<noteq> Some (Finite 0)"
proof -
  have p: "pixel_fragment (ScreenPoint 0 0 0) (ScreenPoint 2 0 (1 / 2)) (ScreenPoint 0 2 1) 2 0 0 = [(0, 0)]"
    by (simp add: pixel_fragment_def barycentric_def Let_def)
  have "(0, 0) \<in> set (triangle_fragments (ScreenPoint 0 0 0) (ScreenPoint 2 0 (1 / 2))
      (ScreenPoint 0 2 1) 2 2)"
    by (simp add: triangle_fragments_def fixture_scan p)
  then have m: "(0, 0) \<in> set (render_fragments (vertices overlap_geometry) fixture_vertShader () 2 2
                   (indices overlap_geometry))"
    by (simp add: render_fragments_def triangle_fragments_of_def overlap_geometry_def
        overlap_shade fixture_points)
  have d: "depth_at (depthBuffer overlap_frame) 0 = Some (Finite (- 1))"
    by (simp add: overlap_frame_def frame_def depth_at_def)
  have b: "barycentric 0 0 (ScreenPoint 0 0 0) (ScreenPoint 2 0 (1 / 2)) (ScreenPoint 0 2 1) =
      Weights 1 0 0"
    by (simp add: barycentric_def Let_def)
  show ?thesis
    using overlap_render m d by (simp add: b)
qed

text \<open>
  C1, amended. Depth-test idempotence: for every geometry, shaders and uniforms, if
  \<^verbatim>\<open>clear()\<close> followed by \<^verbatim>\<open>render\<close> yields a frame, a second \<^verbatim>\<open>render\<close> with the same
  arguments leaves this frame exactly as it is, because every pixel the second pass covers
  interpolates a depth that is not strictly below the stored depth, so the test
  \<^verbatim>\<open>z < depthBuffer[idx]\<close> fails and nothing is written. When the geometry is a single
  triangle (and the depth buffer has width * height cells, width positive) that depth is
  equal to the stored depth.
\<close>

theorem C1_depth_test_idempotent_amended:
  assumes "render geometry vertShader fragShader uniforms (clear r) = Inr r1"
  shows "render geometry vertShader fragShader uniforms r1 = Inr r1 \<and>
         (\<forall>f \<in> set (render_fragments (vertices geometry) vertShader uniforms
                       (width r1) (height r1) (indices geometry)).
            \<not> depth_less (snd f) (depth_at (depthBuffer r1) (fst f))) \<and>
         ((\<exists>i0 i1 i2. indices geometry = [i0, i1, i2]) \<and> 0 < width r \<and>
          length (depthBuffer r) = nat (width r * height r) \<longrightarrow>
          (\<forall>f \<in> set (render_fragments (vertices geometry) vertShader uniforms
                       (width r1) (height r1) (indices geometry)).
             depth_at (depthBuffer r1) (fst f) = Some (Finite (snd f))))"
proof -
  note t = render_trace [OF assms]
  have wh: "width r1 = width r" "height r1 = height r"
    using t by (simp_all add: clear_def)
  have "render geometry vertShader fragShader uniforms r1 = Inr r1"
    by (rule render_fixed [OF assms])
  moreover have "\<not> depth_less (snd f) (depth_at (depthBuffer r1) (fst f))"
    if "f \<in> set (render_fragments (vertices geometry) vertShader uniforms
                       (width r1) (height r1) (indices geometry))" for f
  proof -
    have d: "depthBuffer r1 = foldl depth_store (depthBuffer (clear r))
       (render_fragments (vertices geometry) vertShader uniforms (width r1) (height r1)
          (indices geometry))"
      using t by (simp add: wh clear_def)
    show ?thesis unfolding d by (rule stored_depth_settles [OF that])
  qed
  moreover have "depth_at (depthBuffer r1) (fst f) = Some (Finite (snd f))"
    if "indices geometry = [i0, i1, i2]" "0 < width r"
      "length (depthBuffer r) = nat (width r * height r)"
      "f \<in> set (render_fragments (vertices geometry) vertShader uniforms
                       (width r1) (height r1) (indices geometry))" for f i0 i1 i2
    using single_triangle_equal_depth [OF that(2,3,1) assms] that(4) by (simp add: wh)
  ultimately show ?thesis by blast
qed

theorem C1_depth_test_idempotent_amended_witness:
  "render fixture_geometry fixture_vertShader fixture_fragShader () (clear (Renderer_new 2 2)) =
     Inr fixture_frame \<and>
   render fixture_geometry fixture_vertShader fixture_fragShader () fixture_frame =
     Inr fixture_frame \<and>
   (3, 3 / 4) \<in> set (render_fragments (vertices fixture_geometry) fixture_vertShader ()
       (width fixture_frame) (height fixture_frame) (indices fixture_geometry)) \<and>
   \<not> depth_less (3 / 4) (depth_at (depthBuffer fixture_frame) 3) \<and>
   depth_at (depthBuffer fixture_frame) 3 = Some (Finite (3 / 4))"
proof -
  have wf: "(\<exists>i0 i1 i2. indices fixture_geometry = [i0, i1, i2]) \<and> 0 < width (Renderer_new 2 2) \<and>
      length (depthBuffer (Renderer_new 2 2)) = nat (width (Renderer_new 2 2) * height (Renderer_new 2 2))"
    by (simp add: fixture_geometry_def Renderer_new_def)
  have wh: "width fixture_frame = 2" "height fixture_frame = 2"
    by (simp_all add: fixture_frame_def frame_size)
  have m: "(3, 3 / 4) \<in> set (render_fragments (vertices fixture_geometry) fixture_vertShader ()
       (width fixture_frame) (height fixture_frame) (indices fixture_geometry))"
    by (simp add: wh fixture_fragments)
  note t = C1_depth_test_idempotent_amended [OF fixture_render]
  from t [THEN conjunct2, THEN conjunct1, rule_format, OF m]
  have a: "\<not> depth_less (3 / 4) (depth_at (depthBuffer fixture_frame) 3)" by simp
  from t [THEN conjunct2, THEN conjunct2, THEN mp, OF wf, rule_format, OF m]
  have b: "depth_at (depthBuffer fixture_frame) 3 = Some (Finite (3 / 4))" by simp
  from fixture_render t [THEN conjunct1] m a b show ?thesis by blast
qed


lemma degenerate_pixel_settled:
  assumes "\<bar>denom p0 p1 p2\<bar> < 1 / 1000"
  shows "pixel_settled p0 p1 p2 y x r"
  by (simp add: pixel_settled_def barycentric_degenerate [OF assms])

text \<open>
  C5. A triangle whose signed double area has absolute value below 1e-3 covers no pixel:
  \<^verbatim>\<open>barycentric\<close> returns (-1, -1, -1) at every pixel, the loop body leaves the renderer
  as it is whatever the fragment shader is, and so does the whole \<^verbatim>\<open>rasterizeTriangle\<close>:
  framebuffer and depth buffer are unchanged.
\<close>

theorem C5_degenerate_triangle_skipped:
  assumes "\<bar>denom p0 p1 p2\<bar> < 1 / 1000"
  shows "(\<forall>x y. barycentric x y p0 p1 p2 = Weights (- 1) (- 1) (- 1)) \<and>
         (\<forall>x y. shade_pixel p0 p1 p2 v0 v1 v2 fragShader uniforms y x r = Inr r) \<and>
         rasterizeTriangle p0 p1 p2 v0 v1 v2 fragShader uniforms r = Inr r"
proof -
  have "triangle_settled p0 p1 p2 r"
    by (simp add: triangle_settled_def degenerate_pixel_settled [OF assms])
  then show ?thesis
    using barycentric_degenerate [OF assms] degenerate_pixel_settled [OF assms]
    by (simp add: rasterizeTriangle_noop shade_pixel_noop)
qed

theorem C5_degenerate_triangle_skipped_witness:
  "\<bar>denom (ScreenPoint 0 0 0) (ScreenPoint 1 1 (1 / 2)) (ScreenPoint 2 2 1)\<bar> < 1 / 1000 \<and>
   barycentric 1 1 (ScreenPoint 0 0 0) (ScreenPoint 1 1 (1 / 2)) (ScreenPoint 2 2 1) =
     Weights (- 1) (- 1) (- 1) \<and>
   rasterizeTriangle (ScreenPoint 0 0 0) (ScreenPoint 1 1 (1 / 2)) (ScreenPoint 2 2 1)
     (normal_output (Vec4 (- 1) 1 0 1) (Vec3 0 0 1)) (normal_output (Vec4 0 0 (1 / 2) 1) (Vec3 0 1 0))
     (normal_output (Vec4 1 (- 1) 1 1) (Vec3 1 0 0)) fixture_fragShader ()
     (clear (Renderer_new 2 2)) = Inr (clear (Renderer_new 2 2))"
proof -
  have d: "\<bar>denom (ScreenPoint 0 0 0) (ScreenPoint 1 1 (1 / 2)) (ScreenPoint 2 2 1)\<bar> < 1 / 1000"
    by (simp add: denom_def)
  show ?thesis
    using d C5_degenerate_triangle_skipped [OF d,
        where r = "clear (Renderer_new 2 2)" and fragShader = fixture_fragShader
          and uniforms = "()" and ?v0.0 = "normal_output (Vec4 (- 1) 1 0 1) (Vec3 0 0 1)"
          and ?v1.0 = "normal_output (Vec4 0 0 (1 / 2) 1) (Vec3 0 1 0)"
          and ?v2.0 = "normal_output (Vec4 1 (- 1) 1 1) (Vec3 1 0 0)"]
    by blast
qed


text \<open>
  C7. Depth-buffer invariant. After construction and after \<^verbatim>\<open>clear()\<close> every depth cell is
  \<^verbatim>\<open>Infinity\<close>. The loop body changes the depth buffer only at the pixel's own cell and
  only to an interpolated depth strictly below the stored value. For draw calls run after a
  clear: between any two points of the sequence no cell increases; the depth buffer is the
  result of the depth tests of the fragments in order; after every fragment, and so at the
  end, every cell is the minimum of \<^verbatim>\<open>Infinity\<close> and the depths accepted at that cell.
\<close>

theorem C7_depth_buffer_invariant:
  assumes "render_all calls (clear r0) = Inr r'"
  shows "depthBuffer (Renderer_new wd ht) = replicate (nat (wd * ht)) Infinity \<and>
         depthBuffer (clear r0) = replicate (length (depthBuffer r0)) Infinity \<and>
         (shade_pixel p0 p1 p2 v0 v1 v2 fragShader uniforms y x s = Inr s' \<longrightarrow>
            (let b = barycentric (of_int x) (of_int y) p0 p1 p2;
                 z = pz p0 * bary_u b + pz p1 * bary_v b + pz p2 * bary_w b
             in depthBuffer s' = depthBuffer s \<or>
                (depth_less z (depth_at (depthBuffer s) (y * width s + x)) \<and>
                 depthBuffer s' = (depthBuffer s)[nat (y * width s + x) := Finite z]))) \<and>
         (\<forall>cs1 cs2 r1. calls = cs1 @ cs2 \<and> render_all cs1 (clear r0) = Inr r1 \<longrightarrow>
            depth_mono (clear r0) r1 \<and> depth_mono r1 r') \<and>
         depthBuffer r' =
           foldl depth_store (depthBuffer (clear r0))
             (calls_fragments calls (width r0) (height r0)) \<and>
         (\<forall>fs1 fs2. calls_fragments calls (width r0) (height r0) = fs1 @ fs2 \<longrightarrow>
            (\<forall>i < length (depthBuffer r0).
               foldl depth_store (depthBuffer (clear r0)) fs1 ! i =
                 min_depth (depths_at (int i) (accepted (depthBuffer (clear r0)) fs1)))) \<and>
         (\<forall>i < length (depthBuffer r0).
            depthBuffer r' ! i =
              min_depth (depths_at (int i)
                (accepted (depthBuffer (clear r0))
                   (calls_fragments calls (width r0) (height r0)))))"
proof -
  have mono: "depth_mono (clear r0) r1 \<and> depth_mono r1 r'"
    if "calls = cs1 @ cs2" "render_all cs1 (clear r0) = Inr r1" for cs1 cs2 r1
  proof -
    have "render_all cs2 r1 = Inr r'"
      using assms that by (simp add: render_all_def fold_fault_append)
    then show ?thesis
      using that(2) by (simp add: render_all_mono)
  qed
  have d: "depthBuffer r' = foldl depth_store (depthBuffer (clear r0))
      (calls_fragments calls (width r0) (height r0))"
    using render_all_trace [OF assms] by (simp add: clear_def)
  have pre: "foldl depth_store (depthBuffer (clear r0)) fs ! i =
      min_depth (depths_at (int i) (accepted (depthBuffer (clear r0)) fs))"
    if "i < length (depthBuffer r0)" for i fs
  proof -
    have i: "i < length (depthBuffer (clear r0))" using that by (simp add: clear_def)
    have "depthBuffer (clear r0) ! i = Infinity" using that by (simp add: clear_def)
    then show ?thesis
      unfolding accepted_min [OF i] by simp
  qed
  have cell: "depthBuffer r' ! i =
      min_depth (depths_at (int i)
        (accepted (depthBuffer (clear r0)) (calls_fragments calls (width r0) (height r0))))"
    if "i < length (depthBuffer r0)" for i
    unfolding d by (rule pre [OF that])
  have cl: "depthBuffer (Renderer_new wd ht) = replicate (nat (wd * ht)) Infinity"
    "depthBuffer (clear r0) = replicate (length (depthBuffer r0)) Infinity"
    by (simp_all add: Renderer_new_def clear_def)
  from cl mono d pre cell shade_pixel_writes [of p0 p1 p2 v0 v1 v2 fragShader uniforms y x s s']
  show ?thesis by blast
qed

theorem C7_depth_buffer_invariant_witness:
  "render_all [(fixture_geometry, fixture_vertShader, fixture_fragShader, ())]
     (clear (Renderer_new 2 2)) = Inr fixture_frame \<and>
   depth_mono (clear (Renderer_new 2 2)) fixture_frame \<and>
   (3::nat) < length (depthBuffer (Renderer_new 2 2)) \<and>
   min_depth (depths_at 3 (accepted (depthBuffer (clear (Renderer_new 2 2)))
     (calls_fragments [(fixture_geometry, fixture_vertShader, fixture_fragShader, ())] 2 2))) =
     Finite (3 / 4) \<and>
   shade_pixel (ScreenPoint 0 0 0) (ScreenPoint 2 0 (1 / 2)) (ScreenPoint 0 2 1)
       (normal_output (Vec4 (- 1) 1 0 1) (Vec3 0 0 1))
       (normal_output (Vec4 1 1 (1 / 2) 1) (Vec3 0 1 0))
       (normal_output (Vec4 (- 1) (- 1) 1 1) (Vec3 1 0 0)) fixture_fragShader () 1 1
     (frame [15, 9, 7, 0] [Finite 0, Finite (1 / 4), Finite (1 / 2), Infinity]) =
     Inr fixture_frame \<and>
   depth_less (3 / 4) (depth_at [Finite 0, Finite (1 / 4), Finite (1 / 2), Infinity] 3)"
proof -
  have run: "render_all [(fixture_geometry, fixture_vertShader, fixture_fragShader, ())]
     (clear (Renderer_new 2 2)) = Inr fixture_frame"
    by (simp add: render_all_def fixture_render)
  have l: "(3::nat) < length (depthBuffer (Renderer_new 2 2))"
    by (simp add: Renderer_new_def)
  have wh: "width (Renderer_new 2 2) = 2" "height (Renderer_new 2 2) = 2"
    by (simp_all add: Renderer_new_def)
  have c: "depthBuffer fixture_frame ! 3 = Finite (3 / 4)"
    by (simp add: fixture_frame_def frame_def)
  note t = C7_depth_buffer_invariant [OF run, of 2 2]
  from t [THEN conjunct2, THEN conjunct2, THEN conjunct2, THEN conjunct1] have "\<forall>cs1 cs2 r1.
      [(fixture_geometry, fixture_vertShader, fixture_fragShader, ())] = cs1 @ cs2 \<and>
      render_all cs1 (clear (Renderer_new 2 2)) = Inr r1 \<longrightarrow>
      depth_mono (clear (Renderer_new 2 2)) r1 \<and> depth_mono r1 fixture_frame" .
  from this [rule_format, of "[(fixture_geometry, fixture_vertShader, fixture_fragShader, ())]" "[]"
      fixture_frame] run
  have m: "depth_mono (clear (Renderer_new 2 2)) fixture_frame" by simp
  from t [THEN conjunct2, THEN conjunct2, THEN conjunct2, THEN conjunct2, THEN conjunct2,
      THEN conjunct2] have "\<forall>i<length (depthBuffer (Renderer_new 2 2)). depthBuffer fixture_frame ! i =
      min_depth (depths_at (int i) (accepted (depthBuffer (clear (Renderer_new 2 2)))
        (calls_fragments [(fixture_geometry, fixture_vertShader, fixture_fragShader, ())]
          (width (Renderer_new 2 2)) (height (Renderer_new 2 2)))))" .
  from this [rule_format, OF l] c
  have "min_depth (depths_at 3 (accepted (depthBuffer (clear (Renderer_new 2 2)))
     (calls_fragments [(fixture_geometry, fixture_vertShader, fixture_fragShader, ())] 2 2))) =
     Finite (3 / 4)"
    by (simp add: wh)
  moreover have "depth_less (3 / 4) (depth_at [Finite 0, Finite (1 / 4), Finite (1 / 2), Infinity] 3)"
    using t [THEN conjunct2, THEN conjunct2, THEN conjunct1, THEN mp, OF fixture_pixel]
    by (simp add: Let_def barycentric_def frame_def fixture_frame_def)
  ultimately show ?thesis
    using run m l fixture_pixel by blast
qed









end
